theory Spec2Isabelle
  imports Complex_Main "HOL-Library.Word" "HOL-Library.Monad_Syntax"
begin

section \<open>The elimination particle simulation of \<^verbatim>\<open>src/src/main.cpp\<close>\<close>

text \<open>
  The program keeps its simulation state in globals and mutates them once per frame.
  The embedding collects these globals in one record that every operation takes and
  returns. C++ \<^verbatim>\<open>float\<close> values are modelled as real numbers: rounding, infinities and
  NaN are outside the model, and every concrete input used below is chosen so that the
  arithmetic on it needs no rounding argument. Container sizes and loop indices are
  natural numbers: the \<^verbatim>\<open>int\<close> indices of the program are taken not to overflow, which
  holds for every store below \<open>2^31 / 6\<close> particles.
\<close>

subsection \<open>Vectors\<close>

text \<open>
  \<^verbatim>\<open>glm::vec3\<close>. The components are called \<^verbatim>\<open>x, y, z\<close> (or \<^verbatim>\<open>r, g, b\<close>) in the source; the
  selectors carry a prefix here so that they do not capture variable names.
\<close>

datatype vec3 = Vec3 (vx: real) (vy: real) (vz: real)

datatype vec4 = Vec4 (v4r: real) (v4g: real) (v4b: real) (v4a: real)

fun vadd :: "vec3 \<Rightarrow> vec3 \<Rightarrow> vec3" where
  "vadd (Vec3 a b c) (Vec3 d e f) = Vec3 (a + d) (b + e) (c + f)"

fun vsub :: "vec3 \<Rightarrow> vec3 \<Rightarrow> vec3" where
  "vsub (Vec3 a b c) (Vec3 d e f) = Vec3 (a - d) (b - e) (c - f)"

fun vscale :: "vec3 \<Rightarrow> real \<Rightarrow> vec3" where
  "vscale (Vec3 a b c) k = Vec3 (a * k) (b * k) (c * k)"

text \<open>\<^verbatim>\<open>glm::dot\<close>, \<^verbatim>\<open>glm::length\<close> and \<^verbatim>\<open>glm::distance\<close> as glm defines them:
  \<^verbatim>\<open>distance(p0, p1) = length(p1 - p0)\<close> and \<^verbatim>\<open>length(v) = sqrt(dot(v, v))\<close>.\<close>

fun dot :: "vec3 \<Rightarrow> vec3 \<Rightarrow> real" where
  "dot (Vec3 a b c) (Vec3 d e f) = a * d + b * e + c * f"

definition glm_length :: "vec3 \<Rightarrow> real" where
  "glm_length v = sqrt (dot v v)"

definition glm_distance :: "vec3 \<Rightarrow> vec3 \<Rightarrow> real" where
  "glm_distance p0 p1 = glm_length (vsub p1 p0)"

subsection \<open>Particles and the global state\<close>

record Particle =
  position :: vec3
  color :: vec3
  shape :: int
  lifespan :: real
  velocity :: vec3
  acceleration :: vec3

text \<open>\<^verbatim>\<open>Particle::operator==\<close> compares position and color only.\<close>

definition particle_eq :: "Particle \<Rightarrow> Particle \<Rightarrow> bool" where
  "particle_eq p other \<longleftrightarrow> position p = position other \<and> color p = color other"

text \<open>
  The globals of the program. \<open>console\<close> is what \<^verbatim>\<open>winCheck\<close> has written to
  \<^verbatim>\<open>std::cout\<close>: one entry per winner line, holding the color that the line prints.
  \<^verbatim>\<open>NUM_PARTICLES\<close> is a C++ \<^verbatim>\<open>int\<close>, read as a signed 32-bit value.
\<close>

record sim =
  particles :: "Particle list"
  vertexData :: "real list"
  particleSizeValue :: real
  initialCollide :: real
  backgroundColor :: vec4
  winnerFound :: bool
  NUM_PARTICLES :: "32 word"
  console :: "vec3 list"

definition leftWall :: real where "leftWall = - 27 / 10"

definition rightWall :: real where "rightWall = 27 / 10"

definition topWall :: real where "topWall = 2"

definition bottomWall :: real where "bottomWall = - 2"

subsection \<open>Collision test and removal\<close>

definition checkCollision :: "sim \<Rightarrow> Particle \<Rightarrow> Particle \<Rightarrow> bool" where
  "checkCollision s p1 p2 =
     (let distance = glm_distance (position p1) (position p2);
          sumRadii = particleSizeValue s / initialCollide s
      in distance < sumRadii)"

text \<open>\<^verbatim>\<open>std::find\<close>: the index of the first element equal to the value, or the length of
  the list (the end iterator) when there is none.\<close>

fun std_find :: "Particle list \<Rightarrow> Particle \<Rightarrow> nat" where
  "std_find [] v = 0"
| "std_find (q # qs) v = (if particle_eq q v then 0 else Suc (std_find qs v))"

text \<open>\<^verbatim>\<open>vector::erase\<close> of the single element at a valid index.\<close>

definition erase :: "'a list \<Rightarrow> nat \<Rightarrow> 'a list" where
  "erase xs n = take n xs @ drop (Suc n) xs"

text \<open>
  \<^verbatim>\<open>removeParticle\<close> receives a reference, in every call a reference to an element of
  the store itself. It reads through the reference only during the search, which ends
  before the store is changed, so the model passes the referenced value.
\<close>

definition removeParticle :: "Particle \<Rightarrow> sim \<Rightarrow> sim" where
  "removeParticle ptr s =
     (let it = std_find (particles s) ptr
      in if it \<noteq> length (particles s)
         then (let indexToRemove = it in s\<lparr>particles := erase (particles s) indexToRemove\<rparr>)
         else s)"

text \<open>
  \<^verbatim>\<open>RAND_MAX\<close> comes from the C library and is not part of the repository; the value
  below is glibc's. The proofs use only that it is positive.
\<close>

definition RAND_MAX :: nat where
  "RAND_MAX = 2147483647"

text \<open>
  \<^verbatim>\<open>handleCollision\<close> reseeds the generator from the clock and draws once. The result of
  that single \<^verbatim>\<open>rand()\<close> call is the argument \<open>rnd\<close>.
\<close>

definition randomNumber :: "nat \<Rightarrow> real" where
  "randomNumber rnd = real rnd / real RAND_MAX"

definition handleCollision :: "nat \<Rightarrow> Particle \<Rightarrow> Particle \<Rightarrow> sim \<Rightarrow> sim" where
  "handleCollision rnd p1 p2 s =
     (if randomNumber rnd = 0 then removeParticle p2 s else removeParticle p1 s)"

lemma std_find_le: "std_find ps v \<le> length ps"
  by (induction ps) auto

lemma length_removeParticle_le: "length (particles (removeParticle ptr s)) \<le> length (particles s)"
  using std_find_le [of "particles s" ptr]
  by (simp add: removeParticle_def Let_def erase_def)

lemma length_handleCollision_le:
  "length (particles (handleCollision rnd p1 p2 s)) \<le> length (particles s)"
  by (simp add: handleCollision_def length_removeParticle_le)

subsection \<open>The collision loops of \<^verbatim>\<open>updateParticles\<close>\<close>

text \<open>
  The nested loops re-read \<^verbatim>\<open>particles.size()\<close> before every iteration and keep their
  indices when an element has been erased. \<open>rnd\<close> gives the result of the \<open>k\<close>-th
  \<^verbatim>\<open>rand()\<close> call of the frame; the counter \<open>k\<close> is threaded beside the state.
\<close>

function collide_inner :: "(nat \<Rightarrow> nat) \<Rightarrow> nat \<Rightarrow> nat \<Rightarrow> sim \<times> nat \<Rightarrow> sim \<times> nat" where
  "collide_inner rnd i j (s, k) =
     (if j < length (particles s)
      then (if checkCollision s (particles s ! i) (particles s ! j)
            then collide_inner rnd i (Suc j)
                   (handleCollision (rnd k) (particles s ! i) (particles s ! j) s, Suc k)
            else collide_inner rnd i (Suc j) (s, k))
      else (s, k))"
  by pat_completeness auto

termination
proof (relation "measure (\<lambda>(rnd, i, j, s, k). length (particles s) - j)")
  fix rnd :: "nat \<Rightarrow> nat" and i j k :: nat and s :: sim
  assume "j < length (particles s)"
  moreover have "length (particles (handleCollision (rnd k) (particles s ! i) (particles s ! j) s))
      \<le> length (particles s)"
    by (rule length_handleCollision_le)
  ultimately show "((rnd, i, Suc j, handleCollision (rnd k) (particles s ! i) (particles s ! j) s, Suc k),
      (rnd, i, j, s, k)) \<in> measure (\<lambda>(rnd, i, j, s, k). length (particles s) - j)"
    by simp
qed auto

lemma length_collide_inner_le:
  "length (particles (fst (collide_inner rnd i j sk))) \<le> length (particles (fst sk))"
proof (induction rnd i j sk rule: collide_inner.induct)
  case (1 rnd i j s k)
  show ?case
  proof (cases "j < length (particles s)")
    case False
    then show ?thesis by simp
  next
    case inb: True
    show ?thesis
    proof (cases "checkCollision s (particles s ! i) (particles s ! j)")
      case True
      with inb "1.IH"(1) have "length (particles (fst (collide_inner rnd i j (s, k))))
          \<le> length (particles (handleCollision (rnd k) (particles s ! i) (particles s ! j) s))"
        by simp
      also have "\<dots> \<le> length (particles s)"
        by (rule length_handleCollision_le)
      finally show ?thesis by simp
    next
      case False
      with inb "1.IH"(2) show ?thesis by simp
    qed
  qed
qed

function collide_outer :: "(nat \<Rightarrow> nat) \<Rightarrow> nat \<Rightarrow> sim \<times> nat \<Rightarrow> sim \<times> nat" where
  "collide_outer rnd i (s, k) =
     (if i < length (particles s)
      then collide_outer rnd (Suc i) (collide_inner rnd i (i + 1) (s, k))
      else (s, k))"
  by pat_completeness auto

termination
proof (relation "measure (\<lambda>(rnd, i, s, k). length (particles s) - i)")
  fix rnd :: "nat \<Rightarrow> nat" and i k :: nat and s :: sim
  assume "i < length (particles s)"
  moreover have "length (particles (fst (collide_inner rnd i (i + 1) (s, k)))) \<le> length (particles s)"
    using length_collide_inner_le [of rnd i "i + 1" "(s, k)"] by simp
  ultimately show "((rnd, Suc i, collide_inner rnd i (i + 1) (s, k)), (rnd, i, s, k))
      \<in> measure (\<lambda>(rnd, i, s, k). length (particles s) - i)"
    by (cases "collide_inner rnd i (i + 1) (s, k)") simp
qed simp

subsection \<open>Motion, buffer update and sudden death\<close>

text \<open>The body of the movement loop of \<^verbatim>\<open>updateParticles\<close>, for one particle.\<close>

definition moveParticle :: "real \<Rightarrow> Particle \<Rightarrow> Particle" where
  "moveParticle deltaTime p =
     (let p1 = (if vx (position p) \<le> leftWall \<or> vx (position p) \<ge> rightWall
                then p\<lparr>velocity := Vec3 (- vx (velocity p)) (vy (velocity p)) (vz (velocity p))\<rparr>
                else p);
          p2 = (if vy (position p1) \<le> bottomWall \<or> vy (position p1) \<ge> topWall
                then p1\<lparr>velocity := Vec3 (vx (velocity p1)) (- vy (velocity p1)) (vz (velocity p1))\<rparr>
                else p1);
          p3 = p2\<lparr>velocity := vadd (velocity p2) (vscale (acceleration p2) (deltaTime * 2))\<rparr>
      in p3\<lparr>position := vadd (position p3) (vscale (velocity p3) deltaTime)\<rparr>)"

text \<open>
  \<^verbatim>\<open>vertexData[n] = v\<close>: \<^verbatim>\<open>operator[]\<close> does not check its index and never grows the
  vector. A write past the end is undefined behaviour, the value \<open>None\<close> here.
\<close>

definition poke :: "real list \<Rightarrow> nat \<Rightarrow> real \<Rightarrow> real list option" where
  "poke buf n v = (if n < length buf then Some (buf[n := v]) else None)"

definition writeVertex :: "nat \<Rightarrow> Particle \<Rightarrow> real list \<Rightarrow> real list option" where
  "writeVertex i p buf =
     (let index = 6 * i in
      do {
        b0 \<leftarrow> poke buf index (vx (position p));
        b1 \<leftarrow> poke b0 (index + 1) (vy (position p));
        b2 \<leftarrow> poke b1 (index + 2) (vz (position p));
        b3 \<leftarrow> poke b2 (index + 3) (vx (color p));
        b4 \<leftarrow> poke b3 (index + 4) (vy (color p));
        poke b4 (index + 5) (vz (color p))
      })"

text \<open>The vertex loop, at index \<open>i\<close> with the particles from \<open>i\<close> on still to be written.\<close>

fun updateVertexData :: "nat \<Rightarrow> Particle list \<Rightarrow> real list \<Rightarrow> real list option" where
  "updateVertexData i [] buf = Some buf"
| "updateVertexData i (p # ps) buf = writeVertex i p buf \<bind> updateVertexData (Suc i) ps"

text \<open>C++ integer division truncates towards zero.\<close>

definition c_div :: "int \<Rightarrow> int \<Rightarrow> int" where
  "c_div a b = sgn a * sgn b * (\<bar>a\<bar> div \<bar>b\<bar>)"

text \<open>
  In \<^verbatim>\<open>particles.size() <= NUM_PARTICLES/10\<close> the \<^verbatim>\<open>int\<close> on the right is converted to the
  64-bit unsigned type of the left.
\<close>

definition size_t_of_int :: "int \<Rightarrow> nat" where
  "size_t_of_int v = nat (v mod 2 ^ 64)"

definition suddenDeath :: "sim \<Rightarrow> sim" where
  "suddenDeath s =
     (if length (particles s) \<le> size_t_of_int (c_div (sint (NUM_PARTICLES s)) 10)
         \<or> length (particles s) \<le> 5
      then s\<lparr>particleSizeValue := particleSizeValue s + 5 / 1000,
              initialCollide := initialCollide s + 5 / 1000\<rparr>
      else s)"

text \<open>
  One call of \<^verbatim>\<open>updateParticles\<close>. The final \<^verbatim>\<open>glBufferData\<close> hands \<open>vertexData\<close>, in
  its full length, to the renderer and changes nothing of the state.
\<close>

definition updateParticles :: "real \<Rightarrow> (nat \<Rightarrow> nat) \<Rightarrow> sim \<Rightarrow> sim option" where
  "updateParticles deltaTime rnd s =
     (let s1 = fst (collide_outer rnd 0 (s, 0));
          s2 = s1\<lparr>particles := map (moveParticle deltaTime) (particles s1)\<rparr>
      in do {
        buf \<leftarrow> updateVertexData 0 (particles s2) (vertexData s2);
        Some (suddenDeath (s2\<lparr>vertexData := buf\<rparr>))
      })"

subsection \<open>Win check, input and the main loop\<close>

definition winCheck :: "sim \<Rightarrow> sim" where
  "winCheck s =
     (if length (particles s) = 1
      then (let c = color (last (particles s));
                s1 = (if \<not> winnerFound s then s\<lparr>console := console s @ [c]\<rparr> else s)
            in s1\<lparr>backgroundColor := Vec4 (vx c) (vy c) (vz c) 1, winnerFound := True\<rparr>)
      else s)"

text \<open>
  The events \<^verbatim>\<open>Input\<close> polls. Quit and Escape set \<^verbatim>\<open>gQuit\<close>, which only decides how
  many frames the main loop runs; a run is modelled by the list of frames it executes.
\<close>

datatype event = Quit | KeyEscape | KeySpace | OtherEvent

fun Input :: "event list \<Rightarrow> sim \<Rightarrow> sim" where
  "Input [] s = s"
| "Input (e # es) s =
     Input es (if e = KeySpace then s\<lparr>particleSizeValue := particleSizeValue s + 1 / 2\<rparr> else s)"

record frame_input =
  events :: "event list"
  deltaTime :: real
  rands :: "nat \<Rightarrow> nat"

text \<open>One iteration of \<^verbatim>\<open>MainLoop\<close>: input, update, (drawing), win check.\<close>

definition frame :: "frame_input \<Rightarrow> sim \<Rightarrow> sim option" where
  "frame fi s = do {
     s1 \<leftarrow> updateParticles (deltaTime fi) (rands fi) (Input (events fi) s);
     Some (winCheck s1)
   }"

fun MainLoop :: "frame_input list \<Rightarrow> sim \<Rightarrow> sim option" where
  "MainLoop [] s = Some s"
| "MainLoop (fi # fis) s = frame fi s \<bind> MainLoop fis"

subsection \<open>Initialisation\<close>

text \<open>
  The random draws of one iteration of the loop in \<^verbatim>\<open>VertexSpecification\<close>: six draws
  of the uniform distribution and two results of \<^verbatim>\<open>rand()\<close>.
\<close>

record spawn_draws =
  dis_x :: real
  dis_y :: real
  dis_r :: real
  dis_g :: real
  dis_b :: real
  dis_shape :: real
  rand_vx :: nat
  rand_vy :: nat

definition gScreenWidth :: int where "gScreenWidth = 800"

definition gScreenHeight :: int where "gScreenHeight = 600"

text \<open>\<^verbatim>\<open>static_cast<int>\<close> of a \<^verbatim>\<open>float\<close> drops the fraction.\<close>

definition float_to_int :: "real \<Rightarrow> int" where
  "float_to_int v = (if v < 0 then \<lceil>v\<rceil> else \<lfloor>v\<rfloor>)"

definition spawn :: "spawn_draws \<Rightarrow> Particle" where
  "spawn d =
     \<lparr>position = Vec3 ((dis_x d * real_of_int gScreenWidth) / real_of_int gScreenWidth * 2 - 1)
                      ((dis_y d * real_of_int gScreenHeight) / real_of_int gScreenHeight * 2 - 1)
                      0,
      color = Vec3 (dis_r d) (dis_g d) (dis_b d),
      shape = float_to_int (dis_shape d * 3),
      lifespan = 1,
      velocity = Vec3 (real_of_int (int (rand_vx d) mod 200 - 100) / 100)
                      (real_of_int (int (rand_vy d) mod 200 - 100) / 100)
                      0,
      acceleration = Vec3 0 (- 5 / 100) 0\<rparr>"

definition push_particle :: "spawn_draws \<Rightarrow> sim \<Rightarrow> sim" where
  "push_particle d s =
     (let p = spawn d
      in s\<lparr>particles := particles s @ [p],
            vertexData := vertexData s @
              [vx (position p), vy (position p), vz (position p),
               vx (color p), vy (color p), vz (color p)]\<rparr>)"

text \<open>The loop \<^verbatim>\<open>for (int i = 0; i < NUM_PARTICLES; ++i)\<close>; \<open>draws i\<close> are the draws of
  iteration \<open>i\<close>.\<close>

definition VertexSpecification :: "(nat \<Rightarrow> spawn_draws) \<Rightarrow> sim \<Rightarrow> sim" where
  "VertexSpecification draws s =
     fold (\<lambda>i. push_particle (draws i)) [0..<nat (sint (NUM_PARTICLES s))] s"

text \<open>The globals as the program initialises them, with the particle count \<open>n\<close> that
  \<^verbatim>\<open>main\<close> leaves in \<^verbatim>\<open>NUM_PARTICLES\<close> (100, or the command-line argument).\<close>

definition globals :: "32 word \<Rightarrow> sim" where
  "globals n =
     \<lparr>particles = [], vertexData = [], particleSizeValue = 10, initialCollide = 100,
      backgroundColor = Vec4 0 0 0 1, winnerFound = False, NUM_PARTICLES = n, console = []\<rparr>"

definition startup :: "32 word \<Rightarrow> (nat \<Rightarrow> spawn_draws) \<Rightarrow> sim" where
  "startup n draws = VertexSpecification draws (globals n)"

subsection \<open>Notions used in the statements and proofs\<close>

text \<open>The six floats of a particle in the layout of the buffer: \<^verbatim>\<open>x, y, z, r, g, b\<close>.\<close>

definition flat :: "Particle \<Rightarrow> real list" where
  "flat p = [vx (position p), vy (position p), vz (position p),
             vx (color p), vy (color p), vz (color p)]"

text \<open>The relation between the states before and after the collision loops: only the
  store has changed, and it has lost elements at most.\<close>

definition shrunk :: "sim \<Rightarrow> sim \<Rightarrow> bool" where
  "shrunk s s' \<longleftrightarrow>
     (\<exists>ps. s' = s\<lparr>particles := ps\<rparr> \<and> set ps \<subseteq> set (particles s)
           \<and> length ps \<le> length (particles s))"

text \<open>The store as the collision loops of one frame leave it.\<close>

definition survivors :: "(nat \<Rightarrow> nat) \<Rightarrow> sim \<Rightarrow> Particle list" where
  "survivors rnd s = particles (fst (collide_outer rnd 0 (s, 0)))"

text \<open>A color as \<^verbatim>\<open>winCheck\<close> turns it into a background color, with alpha 1.\<close>

definition opaque :: "vec3 \<Rightarrow> vec4" where
  "opaque c = Vec4 (vx c) (vy c) (vz c) 1"

text \<open>
  What holds of the win latch between frames: before the win is found nothing has been
  printed; afterwards the store has one particle, its color is the one line printed and
  the background color.
\<close>

definition latch_inv :: "sim \<Rightarrow> bool" where
  "latch_inv s =
     (if winnerFound s
      then length (particles s) = 1 \<and> console s = [color (hd (particles s))]
           \<and> backgroundColor s = opaque (color (hd (particles s)))
      else console s = [])"

text \<open>The acceleration that \<^verbatim>\<open>VertexSpecification\<close> gives to every particle.\<close>

definition gravity :: vec3 where
  "gravity = Vec3 0 (- 5 / 100) 0"

subsection \<open>Concrete particles, stores and inputs\<close>

text \<open>
  The inputs at which the statements below are evaluated. All numbers are dyadic or short
  decimal fractions well inside the range of a \<^verbatim>\<open>float\<close>. \<open>p_a\<close> and \<open>p_b\<close> are half a unit
  apart.
\<close>

definition p_a :: Particle where
  "p_a = \<lparr>position = Vec3 0 0 0, color = Vec3 (1 / 2) 0 0, shape = 0, lifespan = 1,
          velocity = Vec3 (1 / 2) 0 0, acceleration = Vec3 0 (- 5 / 100) 0\<rparr>"

definition p_b :: Particle where
  "p_b = \<lparr>position = Vec3 (1 / 2) 0 0, color = Vec3 0 (1 / 2) 0, shape = 1, lifespan = 1,
          velocity = Vec3 0 0 0, acceleration = Vec3 0 (- 5 / 100) 0\<rparr>"

text \<open>Equal to \<open>p_a\<close> in position and color, different in shape and velocity.\<close>

definition p_a' :: Particle where
  "p_a' = \<lparr>position = Vec3 0 0 0, color = Vec3 (1 / 2) 0 0, shape = 2, lifespan = 1,
          velocity = Vec3 0 (1 / 2) 0, acceleration = Vec3 0 (- 5 / 100) 0\<rparr>"

text \<open>One hundredth away from \<open>p_a\<close>.\<close>

definition p_c :: Particle where
  "p_c = \<lparr>position = Vec3 (1 / 100) 0 0, color = Vec3 0 0 (1 / 2), shape = 0, lifespan = 1,
          velocity = Vec3 0 0 0, acceleration = Vec3 0 (- 5 / 100) 0\<rparr>"

text \<open>At the right wall, moving to the right.\<close>

definition p_wall :: Particle where
  "p_wall = \<lparr>position = Vec3 (27 / 10) (- 16 / 10) 0, color = Vec3 0 (1 / 2) 0, shape = 0,
      lifespan = 1, velocity = Vec3 (1 / 2) (- 4 / 10) 0, acceleration = Vec3 0 (- 5 / 100) 0\<rparr>"

text \<open>Stores of one, two and three particles. In \<open>store3\<close> the first and the last
  particle are equal for \<^verbatim>\<open>operator==\<close>.\<close>

definition store1 :: sim where
  "store1 = (globals 1)\<lparr>particles := [p_b], vertexData := flat p_b\<rparr>"

definition store2 :: sim where
  "store2 = (globals 2)\<lparr>particles := [p_a, p_c], vertexData := flat p_a @ flat p_c\<rparr>"

definition store3 :: sim where
  "store3 = (globals 3)\<lparr>particles := [p_a, p_b, p_a'], vertexData := replicate 18 0\<rparr>"

text \<open>Draws for \<^verbatim>\<open>VertexSpecification\<close>: \<open>draws1\<close> makes \<open>p_b\<close>, \<open>draws2\<close> makes \<open>p_a\<close> and
  then \<open>p_c\<close>, \<open>draws3\<close> makes \<open>p_a\<close>, \<open>p_b\<close> and \<open>p_a'\<close>, \<open>draws_wall\<close> makes a particle at
  \<open>x = 0.7\<close> with \<open>x\<close> velocity 0.5.\<close>

definition draws1 :: "nat \<Rightarrow> spawn_draws" where
  "draws1 i = \<lparr>dis_x = 3 / 4, dis_y = 1 / 2, dis_r = 0, dis_g = 1 / 2, dis_b = 0,
      dis_shape = 1 / 2, rand_vx = 100, rand_vy = 100\<rparr>"

definition draws2 :: "nat \<Rightarrow> spawn_draws" where
  "draws2 i =
     (if i = 0
      then \<lparr>dis_x = 1 / 2, dis_y = 1 / 2, dis_r = 1 / 2, dis_g = 0, dis_b = 0, dis_shape = 0,
            rand_vx = 150, rand_vy = 100\<rparr>
      else \<lparr>dis_x = 101 / 200, dis_y = 1 / 2, dis_r = 0, dis_g = 0, dis_b = 1 / 2, dis_shape = 0,
            rand_vx = 100, rand_vy = 100\<rparr>)"

definition draws3 :: "nat \<Rightarrow> spawn_draws" where
  "draws3 i =
     (if i = 0
      then \<lparr>dis_x = 1 / 2, dis_y = 1 / 2, dis_r = 1 / 2, dis_g = 0, dis_b = 0, dis_shape = 0,
            rand_vx = 150, rand_vy = 100\<rparr>
      else if i = 1
      then \<lparr>dis_x = 3 / 4, dis_y = 1 / 2, dis_r = 0, dis_g = 1 / 2, dis_b = 0, dis_shape = 1 / 2,
            rand_vx = 100, rand_vy = 100\<rparr>
      else \<lparr>dis_x = 1 / 2, dis_y = 1 / 2, dis_r = 1 / 2, dis_g = 0, dis_b = 0, dis_shape = 3 / 4,
            rand_vx = 100, rand_vy = 150\<rparr>)"

definition draws_wall :: "nat \<Rightarrow> spawn_draws" where
  "draws_wall i = \<lparr>dis_x = 17 / 20, dis_y = 1 / 2, dis_r = 0, dis_g = 1 / 2, dis_b = 0,
      dis_shape = 0, rand_vx = 150, rand_vy = 100\<rparr>"

text \<open>Frame inputs: the space key pressed once and one second passed; no event and four
  seconds passed. Every \<^verbatim>\<open>rand()\<close> call returns 7.\<close>

definition frame_space :: frame_input where
  "frame_space = \<lparr>events = [KeySpace], deltaTime = 1, rands = (\<lambda>k. 7)\<rparr>"

definition frame_four :: frame_input where
  "frame_four = \<lparr>events = [], deltaTime = 4, rands = (\<lambda>k. 7)\<rparr>"

section \<open>Properties of the operations\<close>

lemma lupd6:
  "n + 6 \<le> length buf \<Longrightarrow>
   buf[n := a, n + 1 := b, n + 2 := c, n + 3 := d, n + 4 := e, n + 5 := f]
     = take n buf @ [a, b, c, d, e, f] @ drop (n + 6) buf"
  by (simp add: list_eq_iff_nth_eq nth_append nth_list_update)

lemma length_flat: "length (flat p) = 6"
  by (simp add: flat_def)

lemma writeVertex_Some:
  assumes "6 * i + 6 \<le> length buf"
  shows "writeVertex i p buf = Some (take (6 * i) buf @ flat p @ drop (6 * i + 6) buf)"
proof -
  have "writeVertex i p buf =
      Some (buf[6 * i := vx (position p), 6 * i + 1 := vy (position p), 6 * i + 2 := vz (position p),
                6 * i + 3 := vx (color p), 6 * i + 4 := vy (color p), 6 * i + 5 := vz (color p)])"
    using assms by (simp add: writeVertex_def poke_def Let_def)
  then show ?thesis
    using assms by (simp only: lupd6 flat_def)
qed

lemma updateVertexData_Some:
  "6 * (i + length ps) \<le> length buf \<Longrightarrow>
   updateVertexData i ps buf =
     Some (take (6 * i) buf @ concat (map flat ps) @ drop (6 * (i + length ps)) buf)"
proof (induction ps arbitrary: i buf)
  case Nil
  then show ?case by simp
next
  case (Cons p ps)
  let ?b = "take (6 * i) buf @ flat p @ drop (6 * i + 6) buf"
  from Cons.prems have w: "writeVertex i p buf = Some ?b"
    by (intro writeVertex_Some) simp
  from Cons.prems have len: "length ?b = length buf"
    by (simp add: length_flat)
  with Cons.prems have "6 * (Suc i + length ps) \<le> length ?b" by simp
  from Cons.IH [OF this]
  have "updateVertexData (Suc i) ps ?b =
      Some (take (6 * Suc i) ?b @ concat (map flat ps) @ drop (6 * (Suc i + length ps)) ?b)" .
  moreover from Cons.prems have "take (6 * Suc i) ?b = take (6 * i) buf @ flat p"
    by (simp add: length_flat)
  moreover from Cons.prems have "drop (6 * (Suc i + length ps)) ?b = drop (6 * (i + length (p # ps))) buf"
    by (simp add: length_flat ac_simps)
  ultimately show ?case using w by simp
qed

lemma removeParticle_fields:
  "removeParticle ptr s = s\<lparr>particles := particles (removeParticle ptr s)\<rparr>"
  by (simp add: removeParticle_def Let_def)

lemma handleCollision_fields:
  "handleCollision r p1 p2 s = s\<lparr>particles := particles (handleCollision r p1 p2 s)\<rparr>"
  using removeParticle_fields by (simp add: handleCollision_def)

lemma set_erase: "set (erase xs n) \<subseteq> set xs"
  by (auto simp: erase_def dest: in_set_takeD in_set_dropD)

lemma set_removeParticle: "set (particles (removeParticle ptr s)) \<subseteq> set (particles s)"
  by (simp add: removeParticle_def Let_def set_erase)

lemma set_handleCollision: "set (particles (handleCollision r p1 p2 s)) \<subseteq> set (particles s)"
  by (simp add: handleCollision_def set_removeParticle)

lemma shrunk_refl: "shrunk s s"
  unfolding shrunk_def by (rule exI [of _ "particles s"]) simp

lemma shrunk_trans:
  assumes "shrunk s s'" and "shrunk s' s''"
  shows "shrunk s s''"
proof -
  from assms(1) obtain ps where 1: "s' = s\<lparr>particles := ps\<rparr>"
    "set ps \<subseteq> set (particles s)" "length ps \<le> length (particles s)"
    unfolding shrunk_def by blast
  from assms(2) obtain qs where 2: "s'' = s'\<lparr>particles := qs\<rparr>"
    "set qs \<subseteq> set (particles s')" "length qs \<le> length (particles s')"
    unfolding shrunk_def by blast
  from 1 2 have "s'' = s\<lparr>particles := qs\<rparr>" "set qs \<subseteq> set (particles s)"
    "length qs \<le> length (particles s)"
    by auto
  then show ?thesis unfolding shrunk_def by blast
qed

lemma shrunkD:
  assumes "shrunk s s'"
  shows "s' = s\<lparr>particles := particles s'\<rparr>" and "set (particles s') \<subseteq> set (particles s)"
    and "length (particles s') \<le> length (particles s)"
  using assms unfolding shrunk_def by auto

lemma shrunk_handleCollision: "shrunk s (handleCollision r p1 p2 s)"
  unfolding shrunk_def
  using handleCollision_fields set_handleCollision length_handleCollision_le by blast

lemma shrunk_collide_inner: "shrunk (fst sk) (fst (collide_inner rnd i j sk))"
proof (induction rnd i j sk rule: collide_inner.induct)
  case (1 rnd i j s k)
  show ?case
  proof (cases "j < length (particles s)")
    case False
    then show ?thesis by (simp add: shrunk_refl)
  next
    case inb: True
    show ?thesis
    proof (cases "checkCollision s (particles s ! i) (particles s ! j)")
      case True
      with inb "1.IH"(1)
      have "shrunk (handleCollision (rnd k) (particles s ! i) (particles s ! j) s)
          (fst (collide_inner rnd i j (s, k)))"
        by simp
      from shrunk_trans [OF shrunk_handleCollision this] show ?thesis by simp
    next
      case False
      with inb "1.IH"(2) show ?thesis by simp
    qed
  qed
qed

lemma shrunk_collide_outer: "shrunk (fst sk) (fst (collide_outer rnd i sk))"
proof (induction rnd i sk rule: collide_outer.induct)
  case (1 rnd i s k)
  show ?case
  proof (cases "i < length (particles s)")
    case False
    then show ?thesis by (simp add: shrunk_refl)
  next
    case True
    obtain s1 k1 where c: "collide_inner rnd i (i + 1) (s, k) = (s1, k1)"
      by (cases "collide_inner rnd i (i + 1) (s, k)")
    from shrunk_collide_inner [of "(s, k)" rnd i "i + 1"] c have "shrunk s s1" by simp
    moreover from "1.IH" [OF True] c have "shrunk s1 (fst (collide_outer rnd (Suc i) (s1, k1)))"
      by simp
    ultimately have "shrunk s (fst (collide_outer rnd (Suc i) (s1, k1)))"
      by (rule shrunk_trans)
    with True c show ?thesis by simp
  qed
qed

declare collide_inner.simps [simp del] collide_outer.simps [simp del]

lemma collide_outer_eq: "fst (collide_outer rnd 0 (s, 0)) = s\<lparr>particles := survivors rnd s\<rparr>"
  unfolding survivors_def
  by (rule shrunkD(1) [OF shrunk_collide_outer [of "(s, 0)" rnd 0], simplified fst_conv])

lemma set_survivors: "set (survivors rnd s) \<subseteq> set (particles s)"
  using shrunkD(2) [OF shrunk_collide_outer [of "(s, 0)" rnd 0]]
  by (simp add: survivors_def)

lemma length_survivors: "length (survivors rnd s) \<le> length (particles s)"
  using shrunkD(3) [OF shrunk_collide_outer [of "(s, 0)" rnd 0]]
  by (simp add: survivors_def)

lemma suddenDeath_fields [simp]:
  "particles (suddenDeath s) = particles s"
  "vertexData (suddenDeath s) = vertexData s"
  "backgroundColor (suddenDeath s) = backgroundColor s"
  "winnerFound (suddenDeath s) = winnerFound s"
  "NUM_PARTICLES (suddenDeath s) = NUM_PARTICLES s"
  "console (suddenDeath s) = console s"
  by (simp_all add: suddenDeath_def)

lemma updateParticles_Some:
  assumes "6 * length (particles s) \<le> length (vertexData s)"
  shows "updateParticles dt rnd s =
    Some (suddenDeath (s\<lparr>particles := map (moveParticle dt) (survivors rnd s),
      vertexData := concat (map flat (map (moveParticle dt) (survivors rnd s)))
        @ drop (6 * length (survivors rnd s)) (vertexData s)\<rparr>))"
proof -
  let ?ps = "map (moveParticle dt) (survivors rnd s)"
  from assms length_survivors [of rnd s] have "6 * (0 + length ?ps) \<le> length (vertexData s)"
    by simp
  from updateVertexData_Some [OF this]
  have u: "updateVertexData 0 ?ps (vertexData s) =
      Some (concat (map flat ?ps) @ drop (6 * length (survivors rnd s)) (vertexData s))"
    by simp
  have "updateParticles dt rnd s =
     updateVertexData 0 ?ps (vertexData s) \<bind>
       (\<lambda>buf. Some (suddenDeath (s\<lparr>particles := ?ps, vertexData := buf\<rparr>)))"
    unfolding updateParticles_def Let_def collide_outer_eq by simp
  also have "\<dots> = Some (suddenDeath (s\<lparr>particles := ?ps,
      vertexData := concat (map flat ?ps) @ drop (6 * length (survivors rnd s)) (vertexData s)\<rparr>))"
    unfolding u by simp
  finally show ?thesis .
qed

lemma length_concat_flat: "length (concat (map flat ps)) = 6 * length ps"
  by (induction ps) (simp_all add: length_flat)

lemma moveParticle_fields [simp]:
  "color (moveParticle dt p) = color p"
  "acceleration (moveParticle dt p) = acceleration p"
  "shape (moveParticle dt p) = shape p"
  "lifespan (moveParticle dt p) = lifespan p"
  by (simp_all add: moveParticle_def Let_def)

lemma Input_fields [simp]:
  "particles (Input es s) = particles s"
  "vertexData (Input es s) = vertexData s"
  "initialCollide (Input es s) = initialCollide s"
  "backgroundColor (Input es s) = backgroundColor s"
  "winnerFound (Input es s) = winnerFound s"
  "NUM_PARTICLES (Input es s) = NUM_PARTICLES s"
  "console (Input es s) = console s"
  by (induction es arbitrary: s; simp)+

lemma Input_particleSizeValue: "particleSizeValue s \<le> particleSizeValue (Input es s)"
proof (induction es arbitrary: s)
  case Nil
  then show ?case by simp
next
  case (Cons e es)
  have "particleSizeValue s \<le> particleSizeValue (if e = KeySpace
      then s\<lparr>particleSizeValue := particleSizeValue s + 1 / 2\<rparr> else s)"
    by simp
  also note Cons.IH
  finally show ?case by simp
qed

lemma winCheck_fields [simp]:
  "particles (winCheck s) = particles s"
  "vertexData (winCheck s) = vertexData s"
  "particleSizeValue (winCheck s) = particleSizeValue s"
  "initialCollide (winCheck s) = initialCollide s"
  "NUM_PARTICLES (winCheck s) = NUM_PARTICLES s"
  by (simp_all add: winCheck_def Let_def)

lemma std_find_first:
  "std_find ps v < length ps \<Longrightarrow>
     particle_eq (ps ! std_find ps v) v \<and> (\<forall>m < std_find ps v. \<not> particle_eq (ps ! m) v)"
proof (induction ps)
  case Nil
  then show ?case by simp
next
  case (Cons q qs)
  show ?case
  proof (cases "particle_eq q v")
    case True
    then show ?thesis by simp
  next
    case False
    with Cons have "particle_eq (qs ! std_find qs v) v"
      and "\<forall>m < std_find qs v. \<not> particle_eq (qs ! m) v"
      by simp_all
    with False show ?thesis by (auto simp: less_Suc_eq_0_disj)
  qed
qed

lemma std_find_found:
  "(\<exists>q \<in> set ps. particle_eq q v) \<longleftrightarrow> std_find ps v < length ps"
  by (induction ps) auto

lemma sqrt_less_iff_square: "0 \<le> r \<Longrightarrow> sqrt x < r \<longleftrightarrow> x < r\<^sup>2"
  using real_sqrt_less_iff [of x "r\<^sup>2"] by simp

lemma glm_distance_euclid:
  "glm_distance a b = sqrt ((vx a - vx b)\<^sup>2 + (vy a - vy b)\<^sup>2 + (vz a - vz b)\<^sup>2)"
  by (cases a; cases b) (simp add: glm_distance_def glm_length_def power2_eq_square algebra_simps)

lemma checkCollision_square:
  assumes "0 \<le> particleSizeValue s / initialCollide s"
  shows "checkCollision s p1 p2 \<longleftrightarrow>
     (vx (position p1) - vx (position p2))\<^sup>2 + (vy (position p1) - vy (position p2))\<^sup>2
       + (vz (position p1) - vz (position p2))\<^sup>2 < (particleSizeValue s / initialCollide s)\<^sup>2"
  by (simp add: checkCollision_def Let_def glm_distance_euclid sqrt_less_iff_square [OF assms])

lemma RAND_MAX_pos: "0 < RAND_MAX"
  by (simp add: RAND_MAX_def)

lemma randomNumber_zero_iff: "randomNumber r = 0 \<longleftrightarrow> r = 0"
  using RAND_MAX_pos by (simp add: randomNumber_def)

lemma particle_eq_refl: "particle_eq p p"
  by (simp add: particle_eq_def)

lemma checkCollision_store2: "checkCollision store2 p_a p_c"
  by (simp add: checkCollision_square store2_def globals_def p_a_def p_c_def power2_eq_square)

lemma fold_push_particle:
  "fold (\<lambda>i. push_particle (draws i)) xs s =
     s\<lparr>particles := particles s @ map (\<lambda>i. spawn (draws i)) xs,
       vertexData := vertexData s @ concat (map (\<lambda>i. flat (spawn (draws i))) xs)\<rparr>"
proof (induction xs arbitrary: s)
  case Nil
  then show ?case by simp
next
  case (Cons x xs)
  show ?case
    by (simp add: Cons.IH) (simp add: push_particle_def Let_def flat_def)
qed

lemma startup_eq:
  "startup n draws =
     (globals n)\<lparr>particles := map (\<lambda>i. spawn (draws i)) [0..<nat (sint n)],
       vertexData := concat (map (\<lambda>i. flat (spawn (draws i))) [0..<nat (sint n)])\<rparr>"
  by (simp add: startup_def VertexSpecification_def fold_push_particle) (simp add: globals_def)

lemma vertexData_startup:
  "vertexData (startup n draws) = concat (map flat (particles (startup n draws)))"
  by (simp add: startup_eq comp_def)

lemma length_vertexData_startup:
  "length (vertexData (startup n draws)) = 6 * length (particles (startup n draws))"
  by (simp only: vertexData_startup length_concat_flat)

text \<open>The state after \<^verbatim>\<open>updateParticles\<close>, field by field.\<close>

lemma updateParticles_fields:
  assumes "updateParticles dt rnd s = Some s'" and "6 * length (particles s) \<le> length (vertexData s)"
  shows "particles s' = map (moveParticle dt) (survivors rnd s)"
    and "vertexData s' = concat (map flat (particles s')) @ drop (6 * length (particles s')) (vertexData s)"
    and "backgroundColor s' = backgroundColor s"
    and "winnerFound s' = winnerFound s"
    and "NUM_PARTICLES s' = NUM_PARTICLES s"
    and "console s' = console s"
  using assms(1) unfolding updateParticles_Some [OF assms(2)] by auto

lemma updateParticles_length:
  assumes "updateParticles dt rnd s = Some s'" and "6 * length (particles s) \<le> length (vertexData s)"
  shows "length (particles s') \<le> length (particles s)"
    and "length (vertexData s') = length (vertexData s)"
proof -
  from updateParticles_fields(1) [OF assms] length_survivors [of rnd s]
  show le: "length (particles s') \<le> length (particles s)" by simp
  with assms(2) have "6 * length (particles s') \<le> length (vertexData s)" by simp
  then show "length (vertexData s') = length (vertexData s)"
    by (simp add: updateParticles_fields(2) [OF assms] length_concat_flat)
qed

lemma updateParticles_total:
  "6 * length (particles s) \<le> length (vertexData s) \<Longrightarrow> \<exists>s'. updateParticles dt rnd s = Some s'"
  by (simp add: updateParticles_Some)

lemma startup_store2: "startup 2 draws2 = store2"
  by (simp add: startup_eq store2_def draws2_def spawn_def float_to_int_def p_a_def p_c_def flat_def
      gScreenWidth_def gScreenHeight_def upt_rec [of 0] upt_rec [of 1] numeral_2_eq_2)

lemma survivors_store2: "survivors (\<lambda>k. 7) store2 = [p_c]"
proof -
  have ps: "particles store2 = [p_a, p_c]"
    by (simp add: store2_def)
  have eqs: "particle_eq p_a p_a"
    by (simp add: particle_eq_def)
  have r: "randomNumber 7 \<noteq> 0"
    by (simp add: randomNumber_zero_iff)
  have rem: "handleCollision 7 p_a p_c store2 = store2\<lparr>particles := [p_c]\<rparr>"
    by (simp add: handleCollision_def r removeParticle_def Let_def erase_def ps eqs)
  have "collide_inner (\<lambda>k. 7) 0 (Suc 0) (store2, 0) =
      collide_inner (\<lambda>k. 7) 0 (Suc (Suc 0)) (store2\<lparr>particles := [p_c]\<rparr>, Suc 0)"
    by (subst collide_inner.simps) (simp add: ps checkCollision_store2 rem)
  also have "\<dots> = (store2\<lparr>particles := [p_c]\<rparr>, Suc 0)"
    by (simp add: collide_inner.simps)
  finally have inner:
    "collide_inner (\<lambda>k. 7) 0 (Suc 0) (store2, 0) = (store2\<lparr>particles := [p_c]\<rparr>, Suc 0)" .
  have "collide_outer (\<lambda>k. 7) 0 (store2, 0) =
      collide_outer (\<lambda>k. 7) (Suc 0) (store2\<lparr>particles := [p_c]\<rparr>, Suc 0)"
    by (subst collide_outer.simps) (simp add: ps inner)
  also have "\<dots> = (store2\<lparr>particles := [p_c]\<rparr>, Suc 0)"
    by (simp add: collide_outer.simps)
  finally show ?thesis by (simp add: survivors_def)
qed

lemma frame_Some:
  assumes "6 * length (particles s) \<le> length (vertexData s)"
  obtains u where "updateParticles (deltaTime fi) (rands fi) (Input (events fi) s) = Some u"
    and "frame fi s = Some (winCheck u)"
proof -
  from assms have "6 * length (particles (Input (events fi) s)) \<le> length (vertexData (Input (events fi) s))"
    by simp
  from updateParticles_total [OF this]
  obtain u where u: "updateParticles (deltaTime fi) (rands fi) (Input (events fi) s) = Some u"
    by blast
  then have "frame fi s = Some (winCheck u)"
    by (simp add: frame_def)
  with u that show thesis by blast
qed

lemma frame_length:
  assumes "6 * length (particles s) \<le> length (vertexData s)"
  shows "\<exists>s'. frame fi s = Some s' \<and> length (particles s') \<le> length (particles s)
     \<and> length (vertexData s') = length (vertexData s) \<and> NUM_PARTICLES s' = NUM_PARTICLES s"
proof -
  let ?i = "Input (events fi) s"
  from assms have ok: "6 * length (particles ?i) \<le> length (vertexData ?i)"
    by simp
  from frame_Some [OF assms, of fi] obtain u
    where u: "updateParticles (deltaTime fi) (rands fi) ?i = Some u" and f: "frame fi s = Some (winCheck u)"
    by blast
  from updateParticles_length [OF u ok] updateParticles_fields(5) [OF u ok] f
  show ?thesis by simp
qed

lemma MainLoop_length:
  "6 * length (particles s) \<le> length (vertexData s) \<Longrightarrow>
   \<exists>s'. MainLoop fis s = Some s' \<and> length (particles s') \<le> length (particles s)
     \<and> length (vertexData s') = length (vertexData s) \<and> NUM_PARTICLES s' = NUM_PARTICLES s"
proof (induction fis arbitrary: s)
  case Nil
  then show ?case by simp
next
  case (Cons fi fis)
  from frame_length [OF Cons.prems, of fi] obtain s1
    where s1: "frame fi s = Some s1" "length (particles s1) \<le> length (particles s)"
      "length (vertexData s1) = length (vertexData s)" "NUM_PARTICLES s1 = NUM_PARTICLES s"
    by blast
  with Cons.prems have "6 * length (particles s1) \<le> length (vertexData s1)"
    by simp
  from Cons.IH [OF this] obtain s2
    where s2: "MainLoop fis s1 = Some s2" "length (particles s2) \<le> length (particles s1)"
      "length (vertexData s2) = length (vertexData s1)" "NUM_PARTICLES s2 = NUM_PARTICLES s1"
    by blast
  from s1 s2 show ?case by simp
qed

lemma MainLoop_append: "MainLoop (fis @ gis) s = MainLoop fis s \<bind> MainLoop gis"
proof (induction fis arbitrary: s)
  case Nil
  then show ?case by simp
next
  case (Cons fi fis)
  show ?case
    by (cases "frame fi s") (simp_all add: Cons.IH)
qed

lemma startup_ok: "6 * length (particles (startup n draws)) \<le> length (vertexData (startup n draws))"
  by (simp add: length_vertexData_startup)

text \<open>The test of the sudden-death branch holds whenever the store size is at most the
  larger of a tenth of \<^verbatim>\<open>NUM_PARTICLES\<close> and 5.\<close>

lemma threshold_test:
  fixes N :: "32 word"
  assumes "int l \<le> max (c_div (sint N) 10) 5"
  shows "l \<le> size_t_of_int (c_div (sint N) 10) \<or> l \<le> 5"
proof (cases "l \<le> 5")
  case True
  then show ?thesis by simp
next
  case False
  with assms have big: "int l \<le> c_div (sint N) 10" and "5 < c_div (sint N) 10"
    by auto
  then have pos: "0 < sint N"
    by (simp add: c_div_def sgn_if split: if_splits)
  then have q: "c_div (sint N) 10 = sint N div 10"
    by (simp add: c_div_def)
  have "sint N < 2 ^ 31"
    using sint_lt [of N] by simp
  with pos have "sint N div 10 < 2 ^ 64"
    using int_div_le_self [of "sint N" 10] by simp
  moreover from pos have "0 \<le> sint N div 10"
    by simp
  ultimately have "size_t_of_int (c_div (sint N) 10) = nat (sint N div 10)"
    by (simp add: size_t_of_int_def q)
  moreover from big q have "l \<le> nat (sint N div 10)"
    by linarith
  ultimately show ?thesis by simp
qed

lemma suddenDeath_steps:
  assumes "int (length (particles s)) \<le> max (c_div (sint (NUM_PARTICLES s)) 10) 5"
  shows "particleSizeValue (suddenDeath s) = particleSizeValue s + 5 / 1000"
    and "initialCollide (suddenDeath s) = initialCollide s + 5 / 1000"
  using threshold_test [OF assms] by (simp_all add: suddenDeath_def)

lemma updateParticles_steps:
  assumes u: "updateParticles dt rnd s = Some s'"
    and ok: "6 * length (particles s) \<le> length (vertexData s)"
    and small: "int (length (particles s')) \<le> max (c_div (sint (NUM_PARTICLES s)) 10) 5"
  shows "particleSizeValue s' = particleSizeValue s + 5 / 1000"
    and "initialCollide s' = initialCollide s + 5 / 1000"
proof -
  let ?t = "s\<lparr>particles := map (moveParticle dt) (survivors rnd s),
      vertexData := concat (map flat (map (moveParticle dt) (survivors rnd s)))
        @ drop (6 * length (survivors rnd s)) (vertexData s)\<rparr>"
  from u have s': "s' = suddenDeath ?t"
    unfolding updateParticles_Some [OF ok] by simp
  with small have "int (length (particles ?t)) \<le> max (c_div (sint (NUM_PARTICLES ?t)) 10) 5"
    by simp
  from suddenDeath_steps [OF this]
  show "particleSizeValue s' = particleSizeValue s + 5 / 1000"
    and "initialCollide s' = initialCollide s + 5 / 1000"
    by (simp_all add: s')
qed

lemma survivors_single:
  assumes "length (particles s) = 1"
  shows "survivors rnd s = particles s"
proof -
  from assms have "collide_inner rnd 0 (0 + 1) (s, 0) = (s, 0)"
    by (simp add: collide_inner.simps)
  with assms have "collide_outer rnd 0 (s, 0) = collide_outer rnd (Suc 0) (s, 0)"
    by (subst collide_outer.simps) simp
  also from assms have "\<dots> = (s, 0)"
    by (simp add: collide_outer.simps)
  finally show ?thesis by (simp add: survivors_def)
qed

lemma winCheck_single:
  assumes "length (particles s) = 1"
  shows "winnerFound (winCheck s)"
    and "backgroundColor (winCheck s) = opaque (color (hd (particles s)))"
    and "console (winCheck s) =
      (if winnerFound s then console s else console s @ [color (hd (particles s))])"
proof -
  from assms obtain p where "particles s = [p]"
    by (cases "particles s") auto
  then show "winnerFound (winCheck s)"
    and "backgroundColor (winCheck s) = opaque (color (hd (particles s)))"
    and "console (winCheck s) =
      (if winnerFound s then console s else console s @ [color (hd (particles s))])"
    by (simp_all add: winCheck_def Let_def opaque_def)
qed

lemma winCheck_other:
  "length (particles s) \<noteq> 1 \<Longrightarrow> winCheck s = s"
  by (simp add: winCheck_def)

text \<open>A frame on a store of one particle.\<close>

lemma frame_single:
  assumes one: "length (particles s) = 1" and ok: "6 * length (particles s) \<le> length (vertexData s)"
  shows "\<exists>s'. frame fi s = Some s' \<and> length (particles s') = 1
     \<and> color (hd (particles s')) = color (hd (particles s))
     \<and> length (vertexData s') = length (vertexData s)
     \<and> winnerFound s'
     \<and> backgroundColor s' = opaque (color (hd (particles s)))
     \<and> console s' = (if winnerFound s then console s else console s @ [color (hd (particles s))])"
proof -
  let ?i = "Input (events fi) s"
  from ok have oki: "6 * length (particles ?i) \<le> length (vertexData ?i)"
    by simp
  from frame_Some [OF ok, of fi] obtain u
    where u: "updateParticles (deltaTime fi) (rands fi) ?i = Some u" and f: "frame fi s = Some (winCheck u)"
    by blast
  from one obtain p where p: "particles s = [p]"
    by (cases "particles s") auto
  from one have "survivors (rands fi) ?i = particles s"
    using survivors_single [of ?i "rands fi"] by simp
  with updateParticles_fields(1) [OF u oki] p
  have pu: "particles u = [moveParticle (deltaTime fi) p]"
    by simp
  then have one_u: "length (particles u) = 1" and col: "color (hd (particles u)) = color (hd (particles s))"
    by (simp_all add: p)
  note w = winCheck_single [OF one_u]
  from updateParticles_length(2) [OF u oki]
  have "length (vertexData (winCheck u)) = length (vertexData s)"
    by simp
  moreover from w(3) col updateParticles_fields(4) [OF u oki] updateParticles_fields(6) [OF u oki]
  have "console (winCheck u) = (if winnerFound s then console s else console s @ [color (hd (particles s))])"
    by simp
  moreover from w(2) col have "backgroundColor (winCheck u) = opaque (color (hd (particles s)))"
    by simp
  ultimately show ?thesis
    using f one_u col w(1) by simp
qed

text \<open>Any number of frames on a store of one particle whose win has been reported.\<close>

lemma MainLoop_latched:
  assumes "length (particles s) = 1" and "6 * length (particles s) \<le> length (vertexData s)"
    and "winnerFound s" and "backgroundColor s = opaque (color (hd (particles s)))"
  shows "\<exists>s'. MainLoop fis s = Some s' \<and> length (particles s') = 1
     \<and> color (hd (particles s')) = color (hd (particles s))
     \<and> winnerFound s'
     \<and> backgroundColor s' = opaque (color (hd (particles s)))
     \<and> console s' = console s"
  using assms
proof (induction fis arbitrary: s)
  case Nil
  then show ?case by simp
next
  case (Cons fi fis)
  from frame_single [OF Cons.prems(1,2), of fi] Cons.prems(3) obtain s1
    where s1: "frame fi s = Some s1" "length (particles s1) = 1"
      "color (hd (particles s1)) = color (hd (particles s))"
      "length (vertexData s1) = length (vertexData s)"
      "winnerFound s1" "backgroundColor s1 = opaque (color (hd (particles s)))"
      "console s1 = console s"
    by auto
  from s1 Cons.prems(1,2) have "6 * length (particles s1) \<le> length (vertexData s1)"
    by simp
  from Cons.IH [OF s1(2) this s1(5)] s1(3,6) obtain s2
    where "MainLoop fis s1 = Some s2" "length (particles s2) = 1"
      "color (hd (particles s2)) = color (hd (particles s1))"
      "winnerFound s2" "backgroundColor s2 = opaque (color (hd (particles s1)))"
      "console s2 = console s1"
    by auto
  with s1 show ?case by simp
qed

lemma latch_inv_startup: "latch_inv (startup n draws)"
  by (simp add: latch_inv_def startup_eq globals_def)

lemma frame_latch_inv:
  assumes inv: "latch_inv s" and ok: "6 * length (particles s) \<le> length (vertexData s)"
    and f: "frame fi s = Some s'"
  shows "latch_inv s'" and "length (particles s') = 1 \<Longrightarrow> winnerFound s'"
proof -
  let ?i = "Input (events fi) s"
  from ok have oki: "6 * length (particles ?i) \<le> length (vertexData ?i)"
    by simp
  from frame_Some [OF ok, of fi] f obtain u
    where u: "updateParticles (deltaTime fi) (rands fi) ?i = Some u" and s': "s' = winCheck u"
    by auto
  note fields = updateParticles_fields [OF u oki]
  show "length (particles s') = 1 \<Longrightarrow> winnerFound s'"
    using winCheck_single(1) [of u] by (simp add: s')
  show "latch_inv s'"
  proof (cases "winnerFound s")
    case True
    with inv have one: "length (particles s) = 1" and c: "console s = [color (hd (particles s))]"
      by (simp_all add: latch_inv_def)
    from frame_single [OF one ok, of fi] f True c show ?thesis
      by (auto simp: latch_inv_def)
  next
    case False
    with inv have "console s = []"
      by (simp add: latch_inv_def)
    with False fields(4,6) have nu: "\<not> winnerFound u" "console u = []"
      by simp_all
    show ?thesis
    proof (cases "length (particles u) = 1")
      case True
      from winCheck_single [OF True] nu show ?thesis
        by (simp add: latch_inv_def s' True)
    next
      case False
      with nu show ?thesis
        by (simp add: latch_inv_def s' winCheck_other)
    qed
  qed
qed

lemma MainLoop_single: "MainLoop [fi] s = frame fi s"
  by (cases "frame fi s") simp_all

lemma MainLoop_snoc_Some:
  assumes "MainLoop (fis @ [fi]) s = Some s'"
  obtains s1 where "MainLoop fis s = Some s1" and "frame fi s1 = Some s'"
proof (cases "MainLoop fis s")
  case None
  with assms show thesis
    by (simp add: MainLoop_append)
next
  case (Some s1)
  with assms have "frame fi s1 = Some s'"
    by (simp add: MainLoop_append MainLoop_single del: MainLoop.simps)
  with Some that show thesis by blast
qed

lemma MainLoop_latch_inv:
  assumes "latch_inv s" and "6 * length (particles s) \<le> length (vertexData s)"
  shows "MainLoop fis s = Some s' \<Longrightarrow>
     latch_inv s' \<and> 6 * length (particles s') \<le> length (vertexData s')
       \<and> (fis \<noteq> [] \<longrightarrow> length (particles s') = 1 \<longrightarrow> winnerFound s')"
proof (induction fis arbitrary: s' rule: rev_induct)
  case Nil
  with assms show ?case by simp
next
  case (snoc fi fis)
  from MainLoop_snoc_Some [OF snoc.prems] obtain s1
    where s1: "MainLoop fis s = Some s1" and f: "frame fi s1 = Some s'"
    by blast
  from snoc.IH [OF s1] have inv1: "latch_inv s1" and ok1: "6 * length (particles s1) \<le> length (vertexData s1)"
    by simp_all
  from frame_length [OF ok1, of fi] f ok1 have "6 * length (particles s') \<le> length (vertexData s')"
    by auto
  with frame_latch_inv [OF inv1 ok1 f] show ?case by simp
qed

lemma startup_store1: "startup 1 draws1 = store1"
  by (simp add: startup_eq store1_def draws1_def spawn_def float_to_int_def p_b_def flat_def
      gScreenWidth_def gScreenHeight_def)

lemma acceleration_startup:
  "p \<in> set (particles (startup n draws)) \<Longrightarrow> acceleration p = gravity"
  by (auto simp: startup_eq spawn_def gravity_def)

lemma acceleration_frame:
  assumes acc: "\<And>q. q \<in> set (particles s) \<Longrightarrow> acceleration q = gravity"
    and ok: "6 * length (particles s) \<le> length (vertexData s)"
    and f: "frame fi s = Some s'" and p: "p \<in> set (particles s')"
  shows "acceleration p = gravity"
proof -
  let ?i = "Input (events fi) s"
  from ok have oki: "6 * length (particles ?i) \<le> length (vertexData ?i)"
    by simp
  from frame_Some [OF ok, of fi] f obtain u
    where u: "updateParticles (deltaTime fi) (rands fi) ?i = Some u" and s': "s' = winCheck u"
    by auto
  from p s' updateParticles_fields(1) [OF u oki]
  obtain q where q: "q \<in> set (survivors (rands fi) ?i)" and pq: "p = moveParticle (deltaTime fi) q"
    by auto
  from q set_survivors [of "rands fi" ?i] have "q \<in> set (particles s)"
    by auto
  with acc pq show ?thesis by simp
qed

lemma acceleration_MainLoop:
  "MainLoop fis (startup n draws) = Some s \<Longrightarrow>
     6 * length (particles s) \<le> length (vertexData s)
       \<and> (\<forall>p \<in> set (particles s). acceleration p = gravity)"
proof (induction fis arbitrary: s rule: rev_induct)
  case Nil
  then show ?case
    using startup_ok [of n draws] acceleration_startup [of _ n draws] by auto
next
  case (snoc fi fis)
  from MainLoop_snoc_Some [OF snoc.prems] obtain s1
    where s1: "MainLoop fis (startup n draws) = Some s1" and f: "frame fi s1 = Some s"
    by blast
  from snoc.IH [OF s1] have ok1: "6 * length (particles s1) \<le> length (vertexData s1)"
    and acc1: "\<And>q. q \<in> set (particles s1) \<Longrightarrow> acceleration q = gravity"
    by simp_all
  from frame_length [OF ok1, of fi] f ok1 have "6 * length (particles s) \<le> length (vertexData s)"
    by auto
  moreover have "\<forall>p \<in> set (particles s). acceleration p = gravity"
    using acceleration_frame [OF acc1 ok1 f] by blast
  ultimately show ?case by simp
qed

lemma run_to_wall:
  "\<exists>s. MainLoop [frame_four] (startup 1 draws_wall) = Some s \<and> particles s = [p_wall]"
proof -
  let ?s = "startup 1 draws_wall"
  have ps: "particles ?s = [spawn (draws_wall 0)]"
    by (simp add: startup_eq)
  from frame_Some [OF startup_ok [of 1 draws_wall], of frame_four] obtain u
    where u: "updateParticles 4 (\<lambda>k. 7) ?s = Some u" and f: "frame frame_four ?s = Some (winCheck u)"
    by (auto simp: frame_four_def)
  from ps have "survivors (\<lambda>k. 7) ?s = particles ?s"
    by (intro survivors_single) simp
  with updateParticles_fields(1) [OF u startup_ok] ps
  have "particles u = [moveParticle 4 (spawn (draws_wall 0))]"
    by simp
  also have "moveParticle 4 (spawn (draws_wall 0)) = p_wall"
    by (simp add: moveParticle_def Let_def spawn_def float_to_int_def draws_wall_def p_wall_def
        gScreenWidth_def gScreenHeight_def leftWall_def rightWall_def topWall_def bottomWall_def)
  finally show ?thesis
    using f by (simp add: MainLoop_single del: MainLoop.simps)
qed

lemma particles_startup3: "particles (startup 3 draws3) = [p_a, p_b, p_a']"
  by (simp add: startup_eq draws3_def spawn_def float_to_int_def p_a_def p_b_def p_a'_def
      gScreenWidth_def gScreenHeight_def upt_rec [of 0] upt_rec [of 1] upt_rec [of 2]
      numeral_3_eq_3)

lemma scalars_startup: "particleSizeValue (startup n draws) = 10" "initialCollide (startup n draws) = 100"
  by (simp_all add: startup_eq globals_def)

text \<open>\<^verbatim>\<open>removeParticle\<close> called with the element at index \<open>j\<close> of the store.\<close>

lemma removeParticle_nth:
  assumes j: "j < length (particles s)"
  shows "\<exists>n \<le> j. particle_eq (particles s ! n) (particles s ! j)
     \<and> (\<forall>m < n. \<not> particle_eq (particles s ! m) (particles s ! j))
     \<and> removeParticle (particles s ! j) s
         = s\<lparr>particles := take n (particles s) @ drop (Suc n) (particles s)\<rparr>"
proof -
  let ?ps = "particles s" and ?n = "std_find (particles s) (particles s ! j)"
  from j have "?ps ! j \<in> set ?ps" by simp
  with particle_eq_refl have "\<exists>q \<in> set ?ps. particle_eq q (?ps ! j)" by blast
  then have found: "?n < length ?ps"
    by (simp add: std_find_found)
  note first = std_find_first [OF found]
  have "?n \<le> j"
  proof (rule ccontr)
    assume "\<not> ?n \<le> j"
    then have "j < ?n" by simp
    with first have "\<not> particle_eq (?ps ! j) (?ps ! j)" by blast
    with particle_eq_refl show False by blast
  qed
  moreover from found
  have "removeParticle (?ps ! j) s = s\<lparr>particles := take ?n ?ps @ drop (Suc ?n) ?ps\<rparr>"
    by (simp add: removeParticle_def Let_def erase_def)
  ultimately show ?thesis using first by blast
qed

lemma removeParticle_nth_unique:
  assumes j: "j < length (particles s)"
    and uniq: "\<forall>m < j. \<not> particle_eq (particles s ! m) (particles s ! j)"
  shows "removeParticle (particles s ! j) s
     = s\<lparr>particles := take j (particles s) @ drop (Suc j) (particles s)\<rparr>"
proof -
  from removeParticle_nth [OF j] obtain n where n: "n \<le> j"
    "particle_eq (particles s ! n) (particles s ! j)"
    "removeParticle (particles s ! j) s
         = s\<lparr>particles := take n (particles s) @ drop (Suc n) (particles s)\<rparr>"
    by blast
  from n(1,2) uniq have "n = j"
    by (cases "n < j") auto
  with n(3) show ?thesis by simp
qed

lemma collisions_startup3:
  "checkCollision (startup 3 draws3) p_a p_a'"
  "\<not> checkCollision (startup 3 draws3) p_a p_b"
  by (simp_all add: checkCollision_square scalars_startup p_a_def p_a'_def p_b_def power2_eq_square)

lemma survivors_startup3: "survivors (\<lambda>k. 0) (startup 3 draws3) = [p_b, p_a']"
proof -
  let ?S = "startup 3 draws3"
  let ?T = "?S\<lparr>particles := [p_b, p_a']\<rparr>"
  have ps: "particles ?S = [p_a, p_b, p_a']"
    by (rule particles_startup3)
  have eqs: "particle_eq p_a p_a'"
    by (simp add: particle_eq_def p_a_def p_a'_def)
  have r: "randomNumber 0 = 0"
    by (simp add: randomNumber_zero_iff)
  have rem: "handleCollision 0 p_a p_a' ?S = ?T"
    by (simp add: handleCollision_def r removeParticle_def Let_def erase_def ps eqs)
  have "collide_inner (\<lambda>k. 0) 0 (Suc 0) (?S, 0) = collide_inner (\<lambda>k. 0) 0 (Suc (Suc 0)) (?S, 0)"
    by (subst collide_inner.simps) (simp add: ps collisions_startup3)
  also have "\<dots> = collide_inner (\<lambda>k. 0) 0 (Suc (Suc (Suc 0))) (?T, Suc 0)"
    by (subst collide_inner.simps) (simp add: ps collisions_startup3 rem)
  also have "\<dots> = (?T, Suc 0)"
    by (simp add: collide_inner.simps)
  finally have inner: "collide_inner (\<lambda>k. 0) 0 (Suc 0) (?S, 0) = (?T, Suc 0)" .
  have "collide_outer (\<lambda>k. 0) 0 (?S, 0) = collide_outer (\<lambda>k. 0) (Suc 0) (?T, Suc 0)"
    by (subst collide_outer.simps) (simp add: ps inner)
  also have "\<dots> = collide_outer (\<lambda>k. 0) (Suc (Suc 0)) (?T, Suc 0)"
    by (subst collide_outer.simps) (simp add: collide_inner.simps)
  also have "\<dots> = (?T, Suc 0)"
    by (simp add: collide_outer.simps)
  finally show ?thesis by (simp add: survivors_def)
qed

section \<open>The claims\<close>

subsection \<open>C1\<close>

text \<open>
  Claim C1, as stated, fails. Started with the two particles \<open>p_a\<close> and \<open>p_c\<close>, one
  hundredth apart, the buffer holds twelve floats for two particles. The first frame
  eliminates \<open>p_a\<close>, and the buffer still holds twelve floats behind a store of one.
\<close>

theorem buffer_length_counterexample:
  "length (vertexData (startup 2 draws2)) = 6 * length (particles (startup 2 draws2))
   \<and> updateParticles 0 (\<lambda>k. 7) (startup 2 draws2) \<noteq> None
   \<and> length (particles (the (updateParticles 0 (\<lambda>k. 7) (startup 2 draws2)))) = 1
   \<and> length (vertexData (the (updateParticles 0 (\<lambda>k. 7) (startup 2 draws2)))) = 12
   \<and> length (vertexData (the (updateParticles 0 (\<lambda>k. 7) (startup 2 draws2))))
       \<noteq> 6 * length (particles (the (updateParticles 0 (\<lambda>k. 7) (startup 2 draws2))))"
proof -
  have ok: "6 * length (particles store2) \<le> length (vertexData store2)"
    by (simp add: store2_def flat_def)
  from updateParticles_total [OF ok] obtain s' where s': "updateParticles 0 (\<lambda>k. 7) store2 = Some s'"
    by blast
  from updateParticles_fields(1) [OF s' ok] have 1: "length (particles s') = 1"
    by (simp add: survivors_store2)
  from updateParticles_length(2) [OF s' ok] have 2: "length (vertexData s') = 12"
    by (simp add: store2_def flat_def)
  from s' 1 2 show ?thesis
    by (simp add: startup_store2) (simp add: store2_def flat_def)
qed

text \<open>
  Claim C1, amended. At start-up the buffer's length is 6 times the store size. After
  each frame's buffer synchronisation the buffer's length is at least 6 times the
  current store size, and its first \<open>6 \<times> |Store|\<close> floats are the particles of the store
  in order, six floats \<open>x, y, z, r, g, b\<close> each.
\<close>

theorem buffer_prefix_synchronised:
  "length (vertexData (startup n draws)) = 6 * length (particles (startup n draws)) \<and>
   (6 * length (particles s) \<le> length (vertexData s) \<longrightarrow>
      (\<exists>s'. updateParticles dt rnd s = Some s'
         \<and> 6 * length (particles s') \<le> length (vertexData s')
         \<and> take (6 * length (particles s')) (vertexData s') = concat (map flat (particles s'))))"
proof (intro conjI impI)
  show "length (vertexData (startup n draws)) = 6 * length (particles (startup n draws))"
    by (rule length_vertexData_startup)
next
  assume ok: "6 * length (particles s) \<le> length (vertexData s)"
  from updateParticles_total [OF ok] obtain s' where s': "updateParticles dt rnd s = Some s'"
    by blast
  from updateParticles_length [OF s' ok] ok
  have "6 * length (particles s') \<le> length (vertexData s')" by simp
  moreover have "take (6 * length (particles s')) (vertexData s') = concat (map flat (particles s'))"
    by (subst updateParticles_fields(2) [OF s' ok]) (simp add: length_concat_flat)
  ultimately show "\<exists>s'. updateParticles dt rnd s = Some s'
         \<and> 6 * length (particles s') \<le> length (vertexData s')
         \<and> take (6 * length (particles s')) (vertexData s') = concat (map flat (particles s'))"
    using s' by blast
qed

theorem buffer_prefix_synchronised_witness:
  "6 * length (particles store2) \<le> length (vertexData store2)
   \<and> updateParticles 1 (\<lambda>k. 7) store2 \<noteq> None
   \<and> length (vertexData (the (updateParticles 1 (\<lambda>k. 7) store2))) = 12
   \<and> take 6 (vertexData (the (updateParticles 1 (\<lambda>k. 7) store2)))
        = [1 / 100, - 1 / 10, 0, 0, 0, 1 / 2]"
proof -
  have ok: "6 * length (particles store2) \<le> length (vertexData store2)"
    by (simp add: store2_def flat_def)
  with buffer_prefix_synchronised [of 2 draws2 store2 1 "\<lambda>k. 7"]
  obtain s' where s': "updateParticles 1 (\<lambda>k. 7) store2 = Some s'"
    and pre: "take (6 * length (particles s')) (vertexData s') = concat (map flat (particles s'))"
    by blast
  from updateParticles_fields(1) [OF s' ok] have ps: "particles s' = [moveParticle 1 p_c]"
    by (simp add: survivors_store2)
  have mv: "flat (moveParticle 1 p_c) = [1 / 100, - 1 / 10, 0, 0, 0, 1 / 2]"
    by (simp add: flat_def moveParticle_def Let_def p_c_def leftWall_def rightWall_def
        topWall_def bottomWall_def)
  from updateParticles_length(2) [OF s' ok] have len: "length (vertexData s') = 12"
    by (simp add: store2_def flat_def)
  from pre have "take 6 (vertexData s') = [1 / 100, - 1 / 10, 0, 0, 0, 1 / 2]"
    by (simp add: ps mv)
  with ok s' len show ?thesis by simp
qed

subsection \<open>C2\<close>

text \<open>
  Claim C2, as stated, fails: the velocity takes up twice the product of acceleration
  and time step. The particle \<open>p_b\<close> is at rest inside the arena; for a step of one
  second the program leaves it with vertical velocity -0.1 where the claim says -0.05.
\<close>

theorem moveParticle_claimed_counterexample:
  "(0::real) \<le> 1
   \<and> velocity (moveParticle 1 p_b) = Vec3 0 (- 1 / 10) 0
   \<and> vadd (velocity p_b) (vscale (acceleration p_b) 1) = Vec3 0 (- 1 / 20) 0
   \<and> velocity (moveParticle 1 p_b) \<noteq> vadd (velocity p_b) (vscale (acceleration p_b) 1)"
  by (simp add: moveParticle_def Let_def p_b_def leftWall_def rightWall_def topWall_def
      bottomWall_def)

text \<open>
  Claim C2, amended. For every particle and every time step, one integration step first
  reverses the velocity component of each axis on which the particle is at or beyond a
  wall, then adds acceleration times twice the time step to the velocity, and then adds
  the new velocity times the time step to the position: velocity first, position second.
\<close>

theorem moveParticle_step:
  "velocity (moveParticle dt p) =
     vadd (Vec3 (if vx (position p) \<le> leftWall \<or> rightWall \<le> vx (position p)
                 then - vx (velocity p) else vx (velocity p))
                (if vy (position p) \<le> bottomWall \<or> topWall \<le> vy (position p)
                 then - vy (velocity p) else vy (velocity p))
                (vz (velocity p)))
          (vscale (acceleration p) (2 * dt))
   \<and> position (moveParticle dt p) = vadd (position p) (vscale (velocity (moveParticle dt p)) dt)"
  by (cases "velocity p") (simp add: moveParticle_def Let_def mult.commute)

subsection \<open>C3\<close>

text \<open>
  Claim C3, as stated, fails. Start-up can make three particles of which the first and
  the third have the same position and color. They collide, the draw is 0, and the
  particle that leaves the store is the one at index 0, the first of the pair: the
  search for the second of the pair stops at the first element equal to it. The second of
  the pair, at index 2, stays.
\<close>

theorem handleCollision_second_counterexample:
  "particles (startup 3 draws3) = [p_a, p_b, p_a']
   \<and> checkCollision (startup 3 draws3) (particles (startup 3 draws3) ! 0)
        (particles (startup 3 draws3) ! 2)
   \<and> randomNumber 0 = 0
   \<and> particles (handleCollision 0 (particles (startup 3 draws3) ! 0)
        (particles (startup 3 draws3) ! 2) (startup 3 draws3)) = [p_b, p_a']
   \<and> erase (particles (startup 3 draws3)) 0 = [p_b, p_a']
   \<and> erase (particles (startup 3 draws3)) 2 = [p_a, p_b]
   \<and> [p_b, p_a'] \<noteq> [p_a, p_b]
   \<and> survivors (\<lambda>k. 0) (startup 3 draws3) = [p_b, p_a']"
proof -
  let ?S = "startup 3 draws3"
  have ps: "particles ?S = [p_a, p_b, p_a']"
    by (rule particles_startup3)
  have eqs: "particle_eq p_a p_a'"
    by (simp add: particle_eq_def p_a_def p_a'_def)
  have r: "randomNumber 0 = 0"
    by (simp add: randomNumber_zero_iff)
  have rem: "particles (handleCollision 0 p_a p_a' ?S) = [p_b, p_a']"
    by (simp add: handleCollision_def r removeParticle_def Let_def erase_def ps eqs)
  have ne: "[p_b, p_a'] \<noteq> [p_a, p_b]"
    by (simp add: p_a_def p_b_def)
  from ps r rem ne collisions_startup3(1) survivors_startup3 show ?thesis
    by (simp add: erase_def)
qed

text \<open>
  Claim C3, amended. \<^verbatim>\<open>handleCollision\<close> makes one draw, \<open>rand() / RAND_MAX\<close>, which lies in
  \<open>[0, 1]\<close>. For a pair read from the store at indices \<open>i\<close> and \<open>j\<close>: when the draw is exactly
  zero, the first particle in store order whose position and color equal those of the
  second of the pair is taken out of the store, and for every other draw the first
  particle in store order whose position and color equal those of the first of the pair.
  Nothing else changes, so exactly one particle leaves. The particle taken out is the
  chosen one of the pair itself whenever no particle before it in the store is equal to
  it in position and color. In the collision loop each colliding pair leads to one such
  call, with the next draw of the frame.
\<close>

theorem handleCollision_first_match:
  "(r \<le> RAND_MAX \<longrightarrow> 0 \<le> randomNumber r \<and> randomNumber r \<le> 1) \<and>
   (i < length (particles s) \<and> j < length (particles s) \<and> randomNumber r = 0 \<longrightarrow>
      (\<exists>n \<le> j. particle_eq (particles s ! n) (particles s ! j)
         \<and> (\<forall>m < n. \<not> particle_eq (particles s ! m) (particles s ! j))
         \<and> handleCollision r (particles s ! i) (particles s ! j) s
             = s\<lparr>particles := take n (particles s) @ drop (Suc n) (particles s)\<rparr>)) \<and>
   (i < length (particles s) \<and> j < length (particles s) \<and> randomNumber r \<noteq> 0 \<longrightarrow>
      (\<exists>n \<le> i. particle_eq (particles s ! n) (particles s ! i)
         \<and> (\<forall>m < n. \<not> particle_eq (particles s ! m) (particles s ! i))
         \<and> handleCollision r (particles s ! i) (particles s ! j) s
             = s\<lparr>particles := take n (particles s) @ drop (Suc n) (particles s)\<rparr>)) \<and>
   (i < length (particles s) \<and> j < length (particles s) \<and> randomNumber r = 0
      \<and> (\<forall>m < j. \<not> particle_eq (particles s ! m) (particles s ! j)) \<longrightarrow>
      handleCollision r (particles s ! i) (particles s ! j) s
        = s\<lparr>particles := take j (particles s) @ drop (Suc j) (particles s)\<rparr>) \<and>
   (i < length (particles s) \<and> j < length (particles s) \<and> randomNumber r \<noteq> 0
      \<and> (\<forall>m < i. \<not> particle_eq (particles s ! m) (particles s ! i)) \<longrightarrow>
      handleCollision r (particles s ! i) (particles s ! j) s
        = s\<lparr>particles := take i (particles s) @ drop (Suc i) (particles s)\<rparr>) \<and>
   (j < length (particles s) \<and> checkCollision s (particles s ! i) (particles s ! j) \<longrightarrow>
      collide_inner rnd i j (s, k) =
        collide_inner rnd i (Suc j)
          (handleCollision (rnd k) (particles s ! i) (particles s ! j) s, Suc k))"
proof -
  have range: "r \<le> RAND_MAX \<longrightarrow> 0 \<le> randomNumber r \<and> randomNumber r \<le> 1"
    using RAND_MAX_pos by (simp add: randomNumber_def)
  have second: "i < length (particles s) \<and> j < length (particles s) \<and> randomNumber r = 0 \<longrightarrow>
      (\<exists>n \<le> j. particle_eq (particles s ! n) (particles s ! j)
         \<and> (\<forall>m < n. \<not> particle_eq (particles s ! m) (particles s ! j))
         \<and> handleCollision r (particles s ! i) (particles s ! j) s
             = s\<lparr>particles := take n (particles s) @ drop (Suc n) (particles s)\<rparr>)"
  proof
    assume h: "i < length (particles s) \<and> j < length (particles s) \<and> randomNumber r = 0"
    then have "handleCollision r (particles s ! i) (particles s ! j) s
        = removeParticle (particles s ! j) s"
      by (simp add: handleCollision_def)
    with removeParticle_nth [of j s] h
    show "\<exists>n \<le> j. particle_eq (particles s ! n) (particles s ! j)
         \<and> (\<forall>m < n. \<not> particle_eq (particles s ! m) (particles s ! j))
         \<and> handleCollision r (particles s ! i) (particles s ! j) s
             = s\<lparr>particles := take n (particles s) @ drop (Suc n) (particles s)\<rparr>"
      by simp
  qed
  have first: "i < length (particles s) \<and> j < length (particles s) \<and> randomNumber r \<noteq> 0 \<longrightarrow>
      (\<exists>n \<le> i. particle_eq (particles s ! n) (particles s ! i)
         \<and> (\<forall>m < n. \<not> particle_eq (particles s ! m) (particles s ! i))
         \<and> handleCollision r (particles s ! i) (particles s ! j) s
             = s\<lparr>particles := take n (particles s) @ drop (Suc n) (particles s)\<rparr>)"
  proof
    assume h: "i < length (particles s) \<and> j < length (particles s) \<and> randomNumber r \<noteq> 0"
    then have "handleCollision r (particles s ! i) (particles s ! j) s
        = removeParticle (particles s ! i) s"
      by (simp add: handleCollision_def)
    with removeParticle_nth [of i s] h
    show "\<exists>n \<le> i. particle_eq (particles s ! n) (particles s ! i)
         \<and> (\<forall>m < n. \<not> particle_eq (particles s ! m) (particles s ! i))
         \<and> handleCollision r (particles s ! i) (particles s ! j) s
             = s\<lparr>particles := take n (particles s) @ drop (Suc n) (particles s)\<rparr>"
      by simp
  qed
  have second_itself: "i < length (particles s) \<and> j < length (particles s) \<and> randomNumber r = 0
      \<and> (\<forall>m < j. \<not> particle_eq (particles s ! m) (particles s ! j)) \<longrightarrow>
      handleCollision r (particles s ! i) (particles s ! j) s
        = s\<lparr>particles := take j (particles s) @ drop (Suc j) (particles s)\<rparr>"
  proof
    assume h: "i < length (particles s) \<and> j < length (particles s) \<and> randomNumber r = 0
      \<and> (\<forall>m < j. \<not> particle_eq (particles s ! m) (particles s ! j))"
    then have "handleCollision r (particles s ! i) (particles s ! j) s
        = removeParticle (particles s ! j) s"
      by (simp add: handleCollision_def)
    with removeParticle_nth_unique [of j s] h
    show "handleCollision r (particles s ! i) (particles s ! j) s
        = s\<lparr>particles := take j (particles s) @ drop (Suc j) (particles s)\<rparr>"
      by simp
  qed
  have first_itself: "i < length (particles s) \<and> j < length (particles s) \<and> randomNumber r \<noteq> 0
      \<and> (\<forall>m < i. \<not> particle_eq (particles s ! m) (particles s ! i)) \<longrightarrow>
      handleCollision r (particles s ! i) (particles s ! j) s
        = s\<lparr>particles := take i (particles s) @ drop (Suc i) (particles s)\<rparr>"
  proof
    assume h: "i < length (particles s) \<and> j < length (particles s) \<and> randomNumber r \<noteq> 0
      \<and> (\<forall>m < i. \<not> particle_eq (particles s ! m) (particles s ! i))"
    then have "handleCollision r (particles s ! i) (particles s ! j) s
        = removeParticle (particles s ! i) s"
      by (simp add: handleCollision_def)
    with removeParticle_nth_unique [of i s] h
    show "handleCollision r (particles s ! i) (particles s ! j) s
        = s\<lparr>particles := take i (particles s) @ drop (Suc i) (particles s)\<rparr>"
      by simp
  qed
  have loop: "j < length (particles s) \<and> checkCollision s (particles s ! i) (particles s ! j) \<longrightarrow>
      collide_inner rnd i j (s, k) =
        collide_inner rnd i (Suc j)
          (handleCollision (rnd k) (particles s ! i) (particles s ! j) s, Suc k)"
    by (subst collide_inner.simps) simp
  from range second first second_itself first_itself loop show ?thesis
    by (intro conjI)
qed

text \<open>
  In \<open>store2\<close> the pair at indices 0 and 1 collides and its particles differ in position:
  the draw 0 takes out the one at index 1, the draw \<open>RAND_MAX\<close> (the value 1) the one at
  index 0. In the store of three from start-up the pair at indices 0 and 2 is equal in
  position and color: the draw 0 takes out the one at index 0.
\<close>

theorem handleCollision_first_match_witness:
  "0 \<le> RAND_MAX \<and> randomNumber 0 = 0
   \<and> RAND_MAX \<le> RAND_MAX \<and> randomNumber RAND_MAX = 1
   \<and> (0::nat) < length (particles store2) \<and> (1::nat) < length (particles store2)
   \<and> \<not> particle_eq (particles store2 ! 0) (particles store2 ! 1)
   \<and> checkCollision store2 (particles store2 ! 0) (particles store2 ! 1)
   \<and> particles (handleCollision 0 (particles store2 ! 0) (particles store2 ! 1) store2) = [p_a]
   \<and> particles (handleCollision RAND_MAX (particles store2 ! 0) (particles store2 ! 1) store2) = [p_c]
   \<and> collide_inner (\<lambda>k. 0) 0 1 (store2, 0) = (store2\<lparr>particles := [p_a]\<rparr>, 1)
   \<and> (2::nat) < length (particles (startup 3 draws3))
   \<and> particle_eq (particles (startup 3 draws3) ! 0) (particles (startup 3 draws3) ! 2)
   \<and> particles (handleCollision 0 (particles (startup 3 draws3) ! 0)
        (particles (startup 3 draws3) ! 2) (startup 3 draws3)) = [p_b, p_a']"
proof -
  let ?S = "startup 3 draws3"
  have r0: "randomNumber 0 = 0" and r1: "randomNumber RAND_MAX = 1"
    using RAND_MAX_pos by (simp_all add: randomNumber_def)
  have ps: "particles store2 = [p_a, p_c]"
    by (simp add: store2_def)
  have ps3: "particles ?S = [p_a, p_b, p_a']"
    by (rule particles_startup3)
  have ne: "\<not> particle_eq p_a p_c" and eq: "particle_eq p_a p_a'"
    by (simp_all add: particle_eq_def p_a_def p_c_def p_a'_def)
  have cc: "checkCollision store2 (particles store2 ! 0) (particles store2 ! 1)"
    using checkCollision_store2 by (simp add: ps)
  note h0 = handleCollision_first_match [where r = 0 and i = 0 and j = 1 and s = store2
      and rnd = "\<lambda>k. 0" and k = 0]
  note h1 = handleCollision_first_match [where r = RAND_MAX and i = 0 and j = 1 and s = store2
      and rnd = "\<lambda>k. 0" and k = 0]
  note h3 = handleCollision_first_match [where r = 0 and i = 0 and j = 2 and s = ?S
      and rnd = "\<lambda>k. 0" and k = 0]
  from h0 r0 ne have a: "handleCollision 0 (particles store2 ! 0) (particles store2 ! 1) store2
      = store2\<lparr>particles := [p_a]\<rparr>"
    by (simp add: ps)
  from h1 r1 have b: "handleCollision RAND_MAX (particles store2 ! 0) (particles store2 ! 1) store2
      = store2\<lparr>particles := [p_c]\<rparr>"
    by (simp add: ps)
  from h0 cc have "collide_inner (\<lambda>k. 0) 0 1 (store2, 0) =
      collide_inner (\<lambda>k. 0) 0 (Suc 1)
        (handleCollision 0 (particles store2 ! 0) (particles store2 ! 1) store2, Suc 0)"
    by (simp add: ps)
  also have "\<dots> = collide_inner (\<lambda>k. 0) 0 (Suc 1) (store2\<lparr>particles := [p_a]\<rparr>, Suc 0)"
    by (simp only: a)
  also have "\<dots> = (store2\<lparr>particles := [p_a]\<rparr>, 1)"
    by (simp add: collide_inner.simps)
  finally have c: "collide_inner (\<lambda>k. 0) 0 1 (store2, 0) = (store2\<lparr>particles := [p_a]\<rparr>, 1)" .
  from h3 r0 obtain n where n: "\<forall>m < n. \<not> particle_eq (particles ?S ! m) (particles ?S ! 2)"
    "handleCollision 0 (particles ?S ! 0) (particles ?S ! 2) ?S
       = ?S\<lparr>particles := take n (particles ?S) @ drop (Suc n) (particles ?S)\<rparr>"
    by (auto simp: ps3)
  from n(1) eq have "n = 0"
    by (cases n) (auto simp: ps3)
  with n(2) have d: "particles (handleCollision 0 (particles ?S ! 0) (particles ?S ! 2) ?S) = [p_b, p_a']"
    by (simp add: ps3)
  from r0 r1 cc ne eq a b c d show ?thesis
    by (simp add: ps ps3)
qed

subsection \<open>C4\<close>

text \<open>
  Claim C4. For every store and every target, \<^verbatim>\<open>removeParticle\<close> deletes the first
  particle in store order whose position and color equal the target's; the equality looks
  at no other field. The deleted slot is the first match, whatever index the target was
  read from, and when a match exists the store loses exactly one element. Without a match
  the store is unchanged.
\<close>

theorem removeParticle_first_match:
  "(particle_eq p other \<longleftrightarrow> position p = position other \<and> color p = color other) \<and>
   ((\<exists>q \<in> set (particles s). particle_eq q ptr) \<longrightarrow>
      (\<exists>n < length (particles s).
          particle_eq (particles s ! n) ptr
        \<and> (\<forall>m < n. \<not> particle_eq (particles s ! m) ptr)
        \<and> removeParticle ptr s = s\<lparr>particles := take n (particles s) @ drop (Suc n) (particles s)\<rparr>
        \<and> Suc (length (particles (removeParticle ptr s))) = length (particles s))) \<and>
   ((\<forall>q \<in> set (particles s). \<not> particle_eq q ptr) \<longrightarrow> removeParticle ptr s = s)"
proof (intro conjI impI)
  show "particle_eq p other \<longleftrightarrow> position p = position other \<and> color p = color other"
    by (simp add: particle_eq_def)
next
  assume "\<exists>q \<in> set (particles s). particle_eq q ptr"
  then have found: "std_find (particles s) ptr < length (particles s)"
    by (simp add: std_find_found)
  let ?n = "std_find (particles s) ptr"
  from found have "removeParticle ptr s = s\<lparr>particles := take ?n (particles s) @ drop (Suc ?n) (particles s)\<rparr>"
    by (simp add: removeParticle_def Let_def erase_def)
  moreover from this found have "Suc (length (particles (removeParticle ptr s))) = length (particles s)"
    by simp
  moreover note std_find_first [OF found]
  ultimately show "\<exists>n < length (particles s).
          particle_eq (particles s ! n) ptr
        \<and> (\<forall>m < n. \<not> particle_eq (particles s ! m) ptr)
        \<and> removeParticle ptr s = s\<lparr>particles := take n (particles s) @ drop (Suc n) (particles s)\<rparr>
        \<and> Suc (length (particles (removeParticle ptr s))) = length (particles s)"
    using found by blast
next
  assume "\<forall>q \<in> set (particles s). \<not> particle_eq q ptr"
  then have "\<not> std_find (particles s) ptr < length (particles s)"
    using std_find_found by blast
  with std_find_le [of "particles s" ptr] have "std_find (particles s) ptr = length (particles s)"
    by simp
  then show "removeParticle ptr s = s"
    by (simp add: removeParticle_def Let_def)
qed

text \<open>
  In \<open>store3\<close> the target is the element at index 2; the element at index 0 equals it in
  position and color, and it is that one which is removed.
\<close>

theorem removeParticle_first_match_witness:
  "(\<exists>q \<in> set (particles store3). particle_eq q p_a')
   \<and> particle_eq (particles store3 ! 0) p_a'
   \<and> particles store3 ! 2 = p_a'
   \<and> particles (removeParticle p_a' store3) = [p_b, p_a']
   \<and> Suc (length (particles (removeParticle p_a' store3))) = length (particles store3)"
proof -
  have ex: "\<exists>q \<in> set (particles store3). particle_eq q p_a'"
    by (simp add: store3_def particle_eq_def p_a'_def)
  with removeParticle_first_match [of p_a p_a' store3 p_a']
  obtain n where n: "n < length (particles store3)" "particle_eq (particles store3 ! n) p_a'"
    "\<forall>m < n. \<not> particle_eq (particles store3 ! m) p_a'"
    "removeParticle p_a' store3 = store3\<lparr>particles := take n (particles store3) @ drop (Suc n) (particles store3)\<rparr>"
    "Suc (length (particles (removeParticle p_a' store3))) = length (particles store3)"
    by blast
  have 0: "particle_eq (particles store3 ! 0) p_a'"
    by (simp add: store3_def particle_eq_def p_a_def p_a'_def)
  with n(3) have "n = 0" by (cases n) auto
  with n(4) have "particles (removeParticle p_a' store3) = [p_b, p_a']"
    by (simp add: store3_def)
  with ex 0 n(5) show ?thesis by (simp add: store3_def)
qed

subsection \<open>C5\<close>

text \<open>
  Claim C5. A frame update whose store size (after the frame's eliminations) is at most
  \<open>max (NUM_PARTICLES / 10) 5\<close>, with C++ integer division, adds the fixed step 0.005 to
  \<open>particleSizeValue\<close> and to \<open>initialCollide\<close>. Once the size is within that bound it
  stays there, so every later frame adds the step again: from then on both values never
  decrease from one frame to the next. (The space key adds to \<open>particleSizeValue\<close>
  on top of that, in \<^verbatim>\<open>Input\<close>.)
\<close>

theorem sudden_death_escalation:
  "(6 * length (particles s) \<le> length (vertexData s) \<longrightarrow>
      (\<exists>s'. updateParticles dt rnd s = Some s' \<and>
         (int (length (particles s')) \<le> max (c_div (sint (NUM_PARTICLES s)) 10) 5 \<longrightarrow>
            particleSizeValue s' = particleSizeValue s + 5 / 1000
            \<and> initialCollide s' = initialCollide s + 5 / 1000))) \<and>
   (6 * length (particles s) \<le> length (vertexData s)
      \<and> int (length (particles s)) \<le> max (c_div (sint (NUM_PARTICLES s)) 10) 5 \<longrightarrow>
      (\<exists>s1 s2. MainLoop fis s = Some s1 \<and> frame fi s1 = Some s2
         \<and> int (length (particles s2)) \<le> max (c_div (sint (NUM_PARTICLES s2)) 10) 5
         \<and> initialCollide s2 = initialCollide s1 + 5 / 1000
         \<and> particleSizeValue s2 = particleSizeValue (Input (events fi) s1) + 5 / 1000
         \<and> particleSizeValue s1 \<le> particleSizeValue s2
         \<and> initialCollide s1 \<le> initialCollide s2))"
proof (intro conjI impI)
  assume ok: "6 * length (particles s) \<le> length (vertexData s)"
  from updateParticles_total [OF ok] obtain s' where s': "updateParticles dt rnd s = Some s'"
    by blast
  with updateParticles_steps [OF s' ok]
  show "\<exists>s'. updateParticles dt rnd s = Some s' \<and>
         (int (length (particles s')) \<le> max (c_div (sint (NUM_PARTICLES s)) 10) 5 \<longrightarrow>
            particleSizeValue s' = particleSizeValue s + 5 / 1000
            \<and> initialCollide s' = initialCollide s + 5 / 1000)"
    by blast
next
  assume "6 * length (particles s) \<le> length (vertexData s)
      \<and> int (length (particles s)) \<le> max (c_div (sint (NUM_PARTICLES s)) 10) 5"
  then have ok: "6 * length (particles s) \<le> length (vertexData s)"
    and small: "int (length (particles s)) \<le> max (c_div (sint (NUM_PARTICLES s)) 10) 5"
    by simp_all
  from MainLoop_length [OF ok, of fis] obtain s1
    where s1: "MainLoop fis s = Some s1" "length (particles s1) \<le> length (particles s)"
      "length (vertexData s1) = length (vertexData s)" "NUM_PARTICLES s1 = NUM_PARTICLES s"
    by blast
  let ?i = "Input (events fi) s1"
  from s1 ok have ok1: "6 * length (particles s1) \<le> length (vertexData s1)"
    by simp
  then have oki: "6 * length (particles ?i) \<le> length (vertexData ?i)"
    by simp
  from frame_Some [OF ok1, of fi] obtain u
    where u: "updateParticles (deltaTime fi) (rands fi) ?i = Some u" and f: "frame fi s1 = Some (winCheck u)"
    by blast
  from updateParticles_length(1) [OF u oki] s1(2) small
  have "int (length (particles u)) \<le> max (c_div (sint (NUM_PARTICLES s)) 10) 5"
    by simp
  with s1(4) have small_u: "int (length (particles u)) \<le> max (c_div (sint (NUM_PARTICLES ?i)) 10) 5"
    by simp
  note steps = updateParticles_steps [OF u oki small_u]
  from small_u updateParticles_fields(5) [OF u oki]
  have "int (length (particles (winCheck u))) \<le> max (c_div (sint (NUM_PARTICLES (winCheck u))) 10) 5"
    by simp
  moreover from steps(2) have "initialCollide (winCheck u) = initialCollide s1 + 5 / 1000"
    by simp
  moreover from steps(1) have "particleSizeValue (winCheck u) = particleSizeValue ?i + 5 / 1000"
    by simp
  moreover from this Input_particleSizeValue [of s1 "events fi"]
  have "particleSizeValue s1 \<le> particleSizeValue (winCheck u)"
    by simp
  ultimately show "\<exists>s1 s2. MainLoop fis s = Some s1 \<and> frame fi s1 = Some s2
         \<and> int (length (particles s2)) \<le> max (c_div (sint (NUM_PARTICLES s2)) 10) 5
         \<and> initialCollide s2 = initialCollide s1 + 5 / 1000
         \<and> particleSizeValue s2 = particleSizeValue (Input (events fi) s1) + 5 / 1000
         \<and> particleSizeValue s1 \<le> particleSizeValue s2
         \<and> initialCollide s1 \<le> initialCollide s2"
    using s1(1) f by simp
qed

text \<open>In \<open>store2\<close>, with \<^verbatim>\<open>NUM_PARTICLES = 2\<close>, the bound is 5 and the store is within it.\<close>

theorem sudden_death_escalation_witness:
  "6 * length (particles store2) \<le> length (vertexData store2)
   \<and> int (length (particles store2)) \<le> max (c_div (sint (NUM_PARTICLES store2)) 10) 5
   \<and> updateParticles 1 (\<lambda>k. 7) store2 \<noteq> None
   \<and> int (length (particles (the (updateParticles 1 (\<lambda>k. 7) store2))))
        \<le> max (c_div (sint (NUM_PARTICLES store2)) 10) 5
   \<and> particleSizeValue (the (updateParticles 1 (\<lambda>k. 7) store2)) = 10 + 5 / 1000
   \<and> initialCollide (the (updateParticles 1 (\<lambda>k. 7) store2)) = 100 + 5 / 1000
   \<and> frame frame_space store2 \<noteq> None
   \<and> particleSizeValue (the (frame frame_space store2)) = 10 + 1 / 2 + 5 / 1000
   \<and> initialCollide (the (frame frame_space store2)) = 100 + 5 / 1000"
proof -
  have ok: "6 * length (particles store2) \<le> length (vertexData store2)"
    by (simp add: store2_def flat_def)
  have small: "int (length (particles store2)) \<le> max (c_div (sint (NUM_PARTICLES store2)) 10) 5"
    by (simp add: store2_def globals_def c_div_def)
  have g: "particleSizeValue store2 = 10" "initialCollide store2 = 100"
    "particleSizeValue (Input (events frame_space) store2) = 10 + 1 / 2"
    by (simp_all add: store2_def globals_def frame_space_def)
  note inst = sudden_death_escalation [of store2 1 "\<lambda>k. 7" "[]" frame_space]
  from inst ok obtain s' where s': "updateParticles 1 (\<lambda>k. 7) store2 = Some s'"
    and step: "int (length (particles s')) \<le> max (c_div (sint (NUM_PARTICLES store2)) 10) 5 \<longrightarrow>
            particleSizeValue s' = particleSizeValue store2 + 5 / 1000
            \<and> initialCollide s' = initialCollide store2 + 5 / 1000"
    by blast
  from updateParticles_length(1) [OF s' ok] small
  have small': "int (length (particles s')) \<le> max (c_div (sint (NUM_PARTICLES store2)) 10) 5"
    by simp
  with step g have a: "particleSizeValue s' = 10 + 5 / 1000" "initialCollide s' = 100 + 5 / 1000"
    by simp_all
  from inst ok small obtain s2 where s2: "frame frame_space store2 = Some s2"
    and "initialCollide s2 = initialCollide store2 + 5 / 1000"
    and "particleSizeValue s2 = particleSizeValue (Input (events frame_space) store2) + 5 / 1000"
    by auto
  with g have b: "particleSizeValue s2 = 10 + 1 / 2 + 5 / 1000" "initialCollide s2 = 100 + 5 / 1000"
    by simp_all
  from ok small s' small' a s2 b show ?thesis by simp
qed

subsection \<open>C6\<close>

text \<open>
  Claim C6. When a win check finds exactly one particle and the latch is not yet set, it
  prints the winner line, sets the latch and makes the background the survivor's color
  with alpha 1; however many frames follow, each with its own win check, nothing more is
  printed, the latch stays set and the background stays that color. For the program as a
  whole: whenever, after at least one frame from start-up, the store has exactly one
  particle, exactly one winner line has been printed since start-up, and the same holds
  after any number of further frames.
\<close>

theorem win_latch:
  "(length (particles s) = 1 \<and> \<not> winnerFound s \<and> 6 \<le> length (vertexData s) \<longrightarrow>
      (\<exists>s'. MainLoop fis (winCheck s) = Some s'
         \<and> console s' = console s @ [color (hd (particles s))]
         \<and> winnerFound s'
         \<and> backgroundColor s' = opaque (color (hd (particles s)))
         \<and> length (particles s') = 1
         \<and> color (hd (particles s')) = color (hd (particles s)))) \<and>
   (fis0 \<noteq> [] \<and> MainLoop fis0 (startup n draws) = Some s1 \<and> length (particles s1) = 1 \<longrightarrow>
      (\<exists>s2. MainLoop fis s1 = Some s2
         \<and> console s2 = [color (hd (particles s1))]
         \<and> winnerFound s2
         \<and> backgroundColor s2 = opaque (color (hd (particles s1)))
         \<and> length (particles s2) = 1
         \<and> color (hd (particles s2)) = color (hd (particles s1))))"
proof (intro conjI impI)
  assume "length (particles s) = 1 \<and> \<not> winnerFound s \<and> 6 \<le> length (vertexData s)"
  then have one: "length (particles s) = 1" and new: "\<not> winnerFound s"
    and ok: "6 \<le> length (vertexData s)"
    by simp_all
  let ?w = "winCheck s"
  note w = winCheck_single [OF one]
  from one ok have "length (particles ?w) = 1" "6 * length (particles ?w) \<le> length (vertexData ?w)"
    by simp_all
  from MainLoop_latched [OF this w(1), of fis] w(2) w(3) new
  show "\<exists>s'. MainLoop fis (winCheck s) = Some s'
         \<and> console s' = console s @ [color (hd (particles s))]
         \<and> winnerFound s'
         \<and> backgroundColor s' = opaque (color (hd (particles s)))
         \<and> length (particles s') = 1
         \<and> color (hd (particles s')) = color (hd (particles s))"
    by auto
next
  assume "fis0 \<noteq> [] \<and> MainLoop fis0 (startup n draws) = Some s1 \<and> length (particles s1) = 1"
  then have ne: "fis0 \<noteq> []" and run: "MainLoop fis0 (startup n draws) = Some s1"
    and one: "length (particles s1) = 1"
    by simp_all
  from MainLoop_latch_inv [OF latch_inv_startup startup_ok run] ne one
  have inv: "latch_inv s1" and ok: "6 * length (particles s1) \<le> length (vertexData s1)"
    and won: "winnerFound s1"
    by simp_all
  from inv won have c: "console s1 = [color (hd (particles s1))]"
    and bg: "backgroundColor s1 = opaque (color (hd (particles s1)))"
    by (simp_all add: latch_inv_def)
  from MainLoop_latched [OF one ok won bg, of fis] c
  show "\<exists>s2. MainLoop fis s1 = Some s2
         \<and> console s2 = [color (hd (particles s1))]
         \<and> winnerFound s2
         \<and> backgroundColor s2 = opaque (color (hd (particles s1)))
         \<and> length (particles s2) = 1
         \<and> color (hd (particles s2)) = color (hd (particles s1))"
    by auto
qed

text \<open>
  The store of the single \<open>p_b\<close>: the win check followed by two frames prints one line,
  and so do one frame from start-up followed by two more.
\<close>

theorem win_latch_witness:
  "length (particles store1) = 1 \<and> \<not> winnerFound store1 \<and> 6 \<le> length (vertexData store1)
   \<and> MainLoop [frame_space, frame_space] (winCheck store1) \<noteq> None
   \<and> console (the (MainLoop [frame_space, frame_space] (winCheck store1))) = [Vec3 0 (1 / 2) 0]
   \<and> backgroundColor (the (MainLoop [frame_space, frame_space] (winCheck store1))) = Vec4 0 (1 / 2) 0 1
   \<and> [frame_space] \<noteq> []
   \<and> MainLoop [frame_space] (startup 1 draws1) \<noteq> None
   \<and> length (particles (the (MainLoop [frame_space] (startup 1 draws1)))) = 1
   \<and> MainLoop [frame_space, frame_space] (the (MainLoop [frame_space] (startup 1 draws1))) \<noteq> None
   \<and> console (the (MainLoop [frame_space, frame_space] (the (MainLoop [frame_space] (startup 1 draws1)))))
        = [Vec3 0 (1 / 2) 0]"
proof -
  have h: "length (particles store1) = 1" "\<not> winnerFound store1" "6 \<le> length (vertexData store1)"
    "console store1 = []" "color (hd (particles store1)) = Vec3 0 (1 / 2) 0"
    by (simp_all add: store1_def globals_def flat_def p_b_def)
  from win_latch [of store1 "[frame_space, frame_space]" "[frame_space]" 1 draws1] h
  obtain s' where a: "MainLoop [frame_space, frame_space] (winCheck store1) = Some s'"
    "console s' = [Vec3 0 (1 / 2) 0]" "backgroundColor s' = Vec4 0 (1 / 2) 0 1"
    by (auto simp: opaque_def)
  from h have ok: "6 * length (particles store1) \<le> length (vertexData store1)"
    by simp
  from frame_single [OF h(1) ok, of frame_space] obtain s1
    where s1: "MainLoop [frame_space] (startup 1 draws1) = Some s1" "length (particles s1) = 1"
      "color (hd (particles s1)) = Vec3 0 (1 / 2) 0"
    by (auto simp: MainLoop_single startup_store1 h simp del: MainLoop.simps)
  from win_latch [of store1 "[frame_space, frame_space]" "[frame_space]" 1 draws1 s1] s1
  obtain s2 where b: "MainLoop [frame_space, frame_space] s1 = Some s2"
    "console s2 = [Vec3 0 (1 / 2) 0]"
    by auto
  from h a s1 b show ?thesis by simp
qed

subsection \<open>C7\<close>

text \<open>
  Claim C7. Two particles collide exactly when the Euclidean distance of their positions
  is strictly below \<open>particleSizeValue / initialCollide\<close> (for a divisor other than zero,
  where the quotient of the model is the quotient of the program). In particular particles
  at distance 0.01 collide when the size is 10 and the divisor 100.
\<close>

theorem checkCollision_euclidean:
  "(initialCollide s \<noteq> 0 \<longrightarrow>
      (checkCollision s p1 p2 \<longleftrightarrow>
         sqrt ((vx (position p1) - vx (position p2))\<^sup>2 + (vy (position p1) - vy (position p2))\<^sup>2
               + (vz (position p1) - vz (position p2))\<^sup>2)
           < particleSizeValue s / initialCollide s)) \<and>
   (particleSizeValue s = 10 \<and> initialCollide s = 100 \<and>
      sqrt ((vx (position p1) - vx (position p2))\<^sup>2 + (vy (position p1) - vy (position p2))\<^sup>2
            + (vz (position p1) - vz (position p2))\<^sup>2) = 1 / 100
      \<longrightarrow> checkCollision s p1 p2)"
  by (simp add: checkCollision_def Let_def glm_distance_euclid)

theorem checkCollision_euclidean_witness:
  "initialCollide store2 \<noteq> 0 \<and> particleSizeValue store2 = 10 \<and> initialCollide store2 = 100
   \<and> sqrt ((vx (position p_a) - vx (position p_c))\<^sup>2 + (vy (position p_a) - vy (position p_c))\<^sup>2
            + (vz (position p_a) - vz (position p_c))\<^sup>2) = 1 / 100
   \<and> checkCollision store2 p_a p_c
   \<and> \<not> checkCollision store2 p_a p_b"
proof -
  have d: "sqrt ((vx (position p_a) - vx (position p_c))\<^sup>2 + (vy (position p_a) - vy (position p_c))\<^sup>2
            + (vz (position p_a) - vz (position p_c))\<^sup>2) = 1 / 100"
    by (simp add: p_a_def p_c_def real_sqrt_divide)
  have g: "particleSizeValue store2 = 10" "initialCollide store2 = 100"
    by (simp_all add: store2_def globals_def)
  have far: "\<not> sqrt ((vx (position p_a) - vx (position p_b))\<^sup>2 + (vy (position p_a) - vy (position p_b))\<^sup>2
            + (vz (position p_a) - vz (position p_b))\<^sup>2) < particleSizeValue store2 / initialCollide store2"
    by (simp add: p_a_def p_b_def g real_sqrt_divide)
  from checkCollision_euclidean [of store2 p_a p_c] d g
  have "checkCollision store2 p_a p_c" by simp
  moreover from checkCollision_euclidean [of store2 p_a p_b] far g
  have "\<not> checkCollision store2 p_a p_b" by simp
  ultimately show ?thesis using d g by simp
qed

subsection \<open>C8\<close>

text \<open>
  Claim C8. A frame never enlarges the store: the size after the frame update is at most
  the size before it. From start-up on, the size after each further frame is at most the
  size before that frame, which is at most the initial count.
\<close>

theorem population_monotone:
  "(6 * length (particles s) \<le> length (vertexData s) \<longrightarrow>
      (\<exists>s'. updateParticles dt rnd s = Some s' \<and> length (particles s') \<le> length (particles s))) \<and>
   (\<exists>s1 s2. MainLoop fis (startup n draws) = Some s1
       \<and> MainLoop (fis @ [fi]) (startup n draws) = Some s2
       \<and> length (particles s2) \<le> length (particles s1)
       \<and> length (particles s1) \<le> length (particles (startup n draws)))"
proof (intro conjI impI)
  assume ok: "6 * length (particles s) \<le> length (vertexData s)"
  from updateParticles_total [OF ok] obtain s' where s': "updateParticles dt rnd s = Some s'"
    by blast
  with updateParticles_length(1) [OF s' ok]
  show "\<exists>s'. updateParticles dt rnd s = Some s' \<and> length (particles s') \<le> length (particles s)"
    by blast
next
  from MainLoop_length [OF startup_ok, of fis n draws] obtain s1
    where s1: "MainLoop fis (startup n draws) = Some s1"
      "length (particles s1) \<le> length (particles (startup n draws))"
      "length (vertexData s1) = length (vertexData (startup n draws))"
    by blast
  with startup_ok [of n draws] have "6 * length (particles s1) \<le> length (vertexData s1)"
    by simp
  from frame_length [OF this, of fi] obtain s2
    where s2: "frame fi s1 = Some s2" "length (particles s2) \<le> length (particles s1)"
    by blast
  from s1(1) s2(1) have "MainLoop (fis @ [fi]) (startup n draws) = Some s2"
    by (simp add: MainLoop_append)
  with s1 s2 show "\<exists>s1 s2. MainLoop fis (startup n draws) = Some s1
       \<and> MainLoop (fis @ [fi]) (startup n draws) = Some s2
       \<and> length (particles s2) \<le> length (particles s1)
       \<and> length (particles s1) \<le> length (particles (startup n draws))"
    by blast
qed

theorem population_monotone_witness:
  "6 * length (particles store2) \<le> length (vertexData store2)
   \<and> updateParticles 1 (\<lambda>k. 7) store2 \<noteq> None
   \<and> length (particles store2) = 2
   \<and> length (particles (the (updateParticles 1 (\<lambda>k. 7) store2))) = 1"
proof -
  have ok: "6 * length (particles store2) \<le> length (vertexData store2)"
    by (simp add: store2_def flat_def)
  with population_monotone [of store2 1 "\<lambda>k. 7" "[]" 2 draws2]
  obtain s' where s': "updateParticles 1 (\<lambda>k. 7) store2 = Some s'"
    and "length (particles s') \<le> length (particles store2)"
    by blast
  from updateParticles_fields(1) [OF s' ok] have "length (particles s') = 1"
    by (simp add: survivors_store2)
  with ok s' show ?thesis by (simp add: store2_def)
qed

subsection \<open>C9\<close>

text \<open>
  Claim C9. Take any particle the program can hold: one in the store after any number of
  frames from start-up. If its \<open>x\<close> position equals \<open>rightWall\<close> and its \<open>x\<close> velocity is
  positive, then after one integration step, whatever the time step, its \<open>x\<close> velocity is
  negative: the reflection reverses it before integrating, and the acceleration of every
  such particle has no \<open>x\<close> component.
\<close>

theorem right_wall_reflection:
  "MainLoop fis (startup n draws) = Some s \<and> p \<in> set (particles s)
     \<and> vx (position p) = rightWall \<and> 0 < vx (velocity p)
   \<longrightarrow> vx (velocity (moveParticle dt p)) < 0"
proof
  assume h: "MainLoop fis (startup n draws) = Some s \<and> p \<in> set (particles s)
     \<and> vx (position p) = rightWall \<and> 0 < vx (velocity p)"
  with acceleration_MainLoop [of fis n draws s] have "acceleration p = gravity"
    by simp
  moreover obtain a b c where "velocity p = Vec3 a b c"
    by (cases "velocity p")
  ultimately show "vx (velocity (moveParticle dt p)) < 0"
    using h by (simp add: moveParticle_def Let_def gravity_def)
qed

text \<open>
  A particle that starts at \<open>x = 0.7\<close> with \<open>x\<close> velocity 0.5 is at \<open>x = 2.7\<close>, the right
  wall, after one frame of four seconds. The next step turns its velocity to -0.5.
\<close>

theorem right_wall_reflection_witness:
  "MainLoop [frame_four] (startup 1 draws_wall) \<noteq> None
   \<and> p_wall \<in> set (particles (the (MainLoop [frame_four] (startup 1 draws_wall))))
   \<and> vx (position p_wall) = rightWall \<and> 0 < vx (velocity p_wall)
   \<and> vx (velocity (moveParticle 1 p_wall)) < 0"
proof -
  from run_to_wall obtain s where s: "MainLoop [frame_four] (startup 1 draws_wall) = Some s"
    "particles s = [p_wall]"
    by blast
  have w: "vx (position p_wall) = rightWall" "0 < vx (velocity p_wall)"
    by (simp_all add: p_wall_def rightWall_def)
  from right_wall_reflection [of "[frame_four]" 1 draws_wall s p_wall 1] s w
  have "vx (velocity (moveParticle 1 p_wall)) < 0"
    by simp
  with s w show ?thesis by simp
qed

subsection \<open>C10\<close>

text \<open>
  Claim C10. No frame changes the length of the flat vertex buffer: after any number of
  frames it is 6 times the initial particle count. Within a frame the floats behind the
  first \<open>6 \<times> |Store|\<close> are the ones that were there before, so the slots of eliminated
  particles keep stale data.
\<close>

theorem buffer_length_fixed:
  "(\<exists>s'. MainLoop fis (startup n draws) = Some s'
       \<and> length (vertexData s') = 6 * length (particles (startup n draws))) \<and>
   (6 * length (particles s) \<le> length (vertexData s) \<longrightarrow>
      (\<exists>s'. updateParticles dt rnd s = Some s'
         \<and> length (vertexData s') = length (vertexData s)
         \<and> drop (6 * length (particles s')) (vertexData s')
             = drop (6 * length (particles s')) (vertexData s)))"
proof (intro conjI impI)
  from MainLoop_length [OF startup_ok, of fis n draws]
  show "\<exists>s'. MainLoop fis (startup n draws) = Some s'
       \<and> length (vertexData s') = 6 * length (particles (startup n draws))"
    by (auto simp: length_vertexData_startup)
next
  assume ok: "6 * length (particles s) \<le> length (vertexData s)"
  from updateParticles_total [OF ok] obtain s' where s': "updateParticles dt rnd s = Some s'"
    by blast
  have "drop (6 * length (particles s')) (vertexData s') = drop (6 * length (particles s')) (vertexData s)"
    by (subst updateParticles_fields(2) [OF s' ok]) (simp add: length_concat_flat)
  with updateParticles_length(2) [OF s' ok] s'
  show "\<exists>s'. updateParticles dt rnd s = Some s'
         \<and> length (vertexData s') = length (vertexData s)
         \<and> drop (6 * length (particles s')) (vertexData s')
             = drop (6 * length (particles s')) (vertexData s)"
    by blast
qed

text \<open>The frame that eliminates \<open>p_a\<close> from \<open>store2\<close> leaves the six floats of the second
  slot as they were: they still describe \<open>p_c\<close> at its old place.\<close>

theorem buffer_length_fixed_witness:
  "6 * length (particles store2) \<le> length (vertexData store2)
   \<and> updateParticles 1 (\<lambda>k. 7) store2 \<noteq> None
   \<and> length (particles (the (updateParticles 1 (\<lambda>k. 7) store2))) = 1
   \<and> length (vertexData (the (updateParticles 1 (\<lambda>k. 7) store2))) = 12
   \<and> drop 6 (vertexData (the (updateParticles 1 (\<lambda>k. 7) store2))) = flat p_c"
proof -
  have ok: "6 * length (particles store2) \<le> length (vertexData store2)"
    by (simp add: store2_def flat_def)
  with buffer_length_fixed [of "[]" 2 draws2 store2 1 "\<lambda>k. 7"]
  obtain s' where s': "updateParticles 1 (\<lambda>k. 7) store2 = Some s'"
    and len: "length (vertexData s') = length (vertexData store2)"
    and rest: "drop (6 * length (particles s')) (vertexData s') = drop (6 * length (particles s')) (vertexData store2)"
    by blast
  from updateParticles_fields(1) [OF s' ok] have ps: "length (particles s') = 1"
    by (simp add: survivors_store2)
  from rest have "drop 6 (vertexData s') = flat p_c"
    by (simp add: ps) (simp add: store2_def flat_def)
  moreover from len have "length (vertexData s') = 12"
    by (simp add: store2_def flat_def)
  ultimately show ?thesis using ok s' ps by simp
qed

end
